theory Spec2Isabelle
  imports Main "HOL-Library.AList"
begin

section \<open>Python values\<close>

text \<open>
  The build script \<^verbatim>\<open>src/v2/build.py\<close> works on whatever \<^verbatim>\<open>json.load\<close> returns: \<^verbatim>\<open>None\<close>,
  booleans, integers, floats, strings, lists and dictionaries with string keys.
  A dictionary keeps its keys in insertion order, so it is an association list;
  a dictionary Python can hold has no key twice.  A string is the list of its
  characters (the model carries the characters below 256).  The script never
  computes with a float, it only prints one, so a float is represented by the
  text that \<^verbatim>\<open>repr\<close> prints for it.
\<close>

datatype json =
    JNull
  | JBool bool
  | JInt int
  | JFloat string
  | JStr string
  | JList "json list"
  | JObj "(string \<times> json) list"

text \<open>The exceptions the script can raise on a parsed schema.\<close>

datatype error =
    KeyError string
  | TypeError
  | AttributeError
  | TemplateError

text \<open>Sequencing of steps that may raise: the first exception ends the run.\<close>

definition ebind :: "error + 'a \<Rightarrow> ('a \<Rightarrow> error + 'b) \<Rightarrow> error + 'b" where
  "ebind m f = (case m of Inl e \<Rightarrow> Inl e | Inr x \<Rightarrow> f x)"

text \<open>\<^verbatim>\<open>x[k]\<close> with a string key \<open>k\<close>: only a dictionary can be subscripted by a string.\<close>

fun py_getitem :: "json \<Rightarrow> string \<Rightarrow> error + json" where
  "py_getitem (JObj kvs) k = (case map_of kvs k of None \<Rightarrow> Inl (KeyError k) | Some v \<Rightarrow> Inr v)"
| "py_getitem _ k = Inl TypeError"

text \<open>\<^verbatim>\<open>x.get(k, d)\<close>: only a dictionary has the method.\<close>

fun py_get :: "json \<Rightarrow> string \<Rightarrow> json \<Rightarrow> error + json" where
  "py_get (JObj kvs) k d = Inr (case map_of kvs k of None \<Rightarrow> d | Some v \<Rightarrow> v)"
| "py_get _ k d = Inl AttributeError"

text \<open>\<^verbatim>\<open>x[k] = v\<close> with a string key: an existing key keeps its place, a new one goes last.\<close>

fun py_setitem :: "json \<Rightarrow> string \<Rightarrow> json \<Rightarrow> error + json" where
  "py_setitem (JObj kvs) k v = Inr (JObj (AList.update k v kvs))"
| "py_setitem _ k v = Inl TypeError"

text \<open>
  \<^verbatim>\<open>for x in c\<close>: a list yields its elements, a string its characters (each a string of
  length one), a dictionary its keys; nothing else can be iterated.
\<close>

fun py_iter :: "json \<Rightarrow> error + json list" where
  "py_iter (JList xs) = Inr xs"
| "py_iter (JStr s) = Inr (map (\<lambda>c. JStr [c]) s)"
| "py_iter (JObj kvs) = Inr (map (\<lambda>kv. JStr (fst kv)) kvs)"
| "py_iter _ = Inl TypeError"

text \<open>\<^verbatim>\<open>isinstance(x, str)\<close>\<close>

fun isinstance_str :: "json \<Rightarrow> bool" where
  "isinstance_str (JStr s) = True"
| "isinstance_str _ = False"

subsection \<open>Printing a value\<close>

definition hexdigit :: "nat \<Rightarrow> char" where
  "hexdigit n = ''0123456789abcdef'' ! n"

fun str_nat :: "nat \<Rightarrow> string" where
  "str_nat n = (if n < 10 then [hexdigit n] else str_nat (n div 10) @ [hexdigit (n mod 10)])"

declare str_nat.simps [simp del]

definition str_int :: "int \<Rightarrow> string" where
  "str_int i = (if i < 0 then CHR ''-'' # str_nat (nat (- i)) else str_nat (nat i))"

text \<open>
  \<^verbatim>\<open>repr\<close> of a string: double quotes only when the string has a single quote and no
  double quote; the quote and the backslash are escaped, tab, newline and return are
  written \<^verbatim>\<open>\t \n \r\<close>, any other character that is not printable as \<^verbatim>\<open>\xNN\<close>.
\<close>

definition isprintable :: "char \<Rightarrow> bool" where
  "isprintable c = (let n = of_char c :: nat in
     (32 \<le> n \<and> n < 127) \<or> (161 \<le> n \<and> n \<noteq> 173))"

definition repr_char :: "char \<Rightarrow> char \<Rightarrow> string" where
  "repr_char quote c =
    (if c = quote \<or> c = CHR 0x5C then [CHR 0x5C, c]
     else if c = CHR 0x09 then [CHR 0x5C, CHR ''t'']
     else if c = CHR 0x0A then [CHR 0x5C, CHR ''n'']
     else if c = CHR 0x0D then [CHR 0x5C, CHR ''r'']
     else if isprintable c then [c]
     else [CHR 0x5C, CHR ''x'', hexdigit (of_char c div 16), hexdigit (of_char c mod 16)])"

definition repr_str :: "string \<Rightarrow> string" where
  "repr_str s =
    (let quote = (if CHR 0x27 \<in> set s \<and> CHR 0x22 \<notin> set s then CHR 0x22 else CHR 0x27)
     in quote # concat (map (repr_char quote) s) @ [quote])"

text \<open>\<^verbatim>\<open>sep.join(xs)\<close>\<close>

fun join :: "string \<Rightarrow> string list \<Rightarrow> string" where
  "join sep [] = []"
| "join sep [x] = x"
| "join sep (x # y # ys) = x @ sep @ join sep (y # ys)"

fun py_repr :: "json \<Rightarrow> string" where
  "py_repr JNull = ''None''"
| "py_repr (JBool b) = (if b then ''True'' else ''False'')"
| "py_repr (JInt i) = str_int i"
| "py_repr (JFloat r) = r"
| "py_repr (JStr s) = repr_str s"
| "py_repr (JList xs) = ''['' @ join '', '' (map py_repr xs) @ '']''"
| "py_repr (JObj kvs) =
     ''{'' @ join '', '' (map (\<lambda>(k, v). repr_str k @ '': '' @ py_repr v) kvs) @ ''}''"

text \<open>
  A replacement field \<^verbatim>\<open>{x}\<close> of an f-string: a string is inserted as it is, with no
  quoting and no escaping; any other value is inserted as \<^verbatim>\<open>str\<close> prints it.
\<close>

fun py_format :: "json \<Rightarrow> string" where
  "py_format (JStr s) = s"
| "py_format v = py_repr v"

section \<open>The libraries the script calls\<close>

text \<open>
  The script calls \<^verbatim>\<open>uuid.uuid5\<close> with \<^verbatim>\<open>uuid.NAMESPACE_DNS\<close> and prints a UUID with
  \<^verbatim>\<open>str\<close>; it gets templates from a Jinja2 environment and renders them; it serialises
  the registry with \<^verbatim>\<open>json.dumps\<close> and collapses the inner lists with a regular
  expression.  None of these is code of the script: they are parameters of the model,
  \<open>'u\<close> being the type of UUID objects and \<open>'t\<close> that of templates.  \<open>uuid5\<close> is applied to
  strings only: the script's one call with a value that may not be a string is guarded
  below.  \<open>render\<close> takes the keyword arguments \<open>page\<close>, \<open>nav_items\<close> and \<open>config\<close>;
  \<open>registry_json\<close> is \<^verbatim>\<open>json.dumps\<close> followed by the collapsing pass.
\<close>

type_synonym registry = "(string \<times> json list) list"

record ('u, 't) libs =
  NAMESPACE_DNS :: 'u
  uuid5 :: "'u \<Rightarrow> string \<Rightarrow> 'u"
  str_uuid :: "'u \<Rightarrow> string"
  get_template :: "string \<Rightarrow> error + 't"
  render :: "'t \<Rightarrow> json \<Rightarrow> json \<Rightarrow> json \<Rightarrow> error + string"
  registry_json :: "registry \<Rightarrow> string"

section \<open>The build\<close>

subsection \<open>Configuration\<close>

definition OUTPUT_DIR :: string where "OUTPUT_DIR = ''dist''"
definition REGISTRY_FILE :: string where "REGISTRY_FILE = ''drill_registry.json''"

subsection \<open>Seed and namespace (lines 24 and 26)\<close>

text \<open>\<^verbatim>\<open>schema.get("config", {}).get("uuid_seed", "default_seed")\<close>\<close>

definition seed_string :: "json \<Rightarrow> error + json" where
  "seed_string schema =
     ebind (py_get schema ''config'' (JObj []))
       (\<lambda>config. py_get config ''uuid_seed'' (JStr ''default_seed''))"

text \<open>
  \<^verbatim>\<open>uuid.uuid5(uuid.NAMESPACE_DNS, seed_string)\<close>: \<^verbatim>\<open>uuid5\<close> raises \<^verbatim>\<open>TypeError\<close> on a
  name that is not a string.
\<close>

fun NAMESPACE :: "('u, 't) libs \<Rightarrow> json \<Rightarrow> error + 'u" where
  "NAMESPACE L (JStr seed) = Inr (uuid5 L (NAMESPACE_DNS L) seed)"
| "NAMESPACE L _ = Inl TypeError"

subsection \<open>Loops\<close>

text \<open>
  A \<^verbatim>\<open>for\<close> loop over the items \<open>xs\<close> whose body updates the state \<open>s\<close> or raises.
\<close>

fun for_each :: "('a \<Rightarrow> 's \<Rightarrow> error + 's) \<Rightarrow> 'a list \<Rightarrow> 's \<Rightarrow> error + 's" where
  "for_each body [] s = Inr s"
| "for_each body (x # xs) s =
     (case body x s of Inl e \<Rightarrow> Inl e | Inr s' \<Rightarrow> for_each body xs s')"

subsection \<open>Navigation items (lines 34 and 35)\<close>

text \<open>
  \<^verbatim>\<open>[{"title": p["title"], "url": f"{p['title']}.html"} for p in schema["pages"]]\<close>: the
  state of the loop is the list built so far.
\<close>

definition nav_item :: "json \<Rightarrow> json list \<Rightarrow> error + json list" where
  "nav_item p items =
     ebind (py_getitem p ''title'') (\<lambda>title.
     ebind (py_getitem p ''title'') (\<lambda>title'.
       Inr (items @ [JObj [(''title'', title), (''url'', JStr (py_format title' @ ''.html''))]])))"

definition nav_items :: "json \<Rightarrow> error + json list" where
  "nav_items schema =
     ebind (py_getitem schema ''pages'') (\<lambda>pages.
     ebind (py_iter pages) (\<lambda>ps. for_each nav_item ps []))"

subsection \<open>Data processing and UUID generation (lines 33 to 66)\<close>

text \<open>
  \<^verbatim>\<open>f"{page['title']}|{section['heading']}|{lesson_name}|{i}"\<close>, given the values of the
  four fields.
\<close>

definition unique_path :: "json \<Rightarrow> json \<Rightarrow> json \<Rightarrow> int \<Rightarrow> string" where
  "unique_path title heading lesson_name i =
     py_format title @ ''|'' @ py_format heading @ ''|'' @ py_format lesson_name @ ''|''
       @ py_format (JInt i)"

text \<open>
  The body of \<^verbatim>\<open>for i in range(1, 4)\<close> (lines 50 to 62).  Its state is the list
  \<^verbatim>\<open>lesson_data["levels"]\<close> and the registry.  \<^verbatim>\<open>drill_registry[u] = ...\<close> on a key already
  present replaces the value in place.  The script evaluates \<^verbatim>\<open>page['title']\<close> and
  \<^verbatim>\<open>section['heading']\<close> once for the path and once more for the registry entry; nothing
  changes them in between, so the model evaluates them once.
\<close>

definition level_body ::
  "('u, 't) libs \<Rightarrow> 'u \<Rightarrow> json \<Rightarrow> json \<Rightarrow> json \<Rightarrow> int \<Rightarrow> json list \<times> registry
     \<Rightarrow> error + json list \<times> registry" where
  "level_body L ns page section lesson_name i st =
     (case st of (levels, drill_registry) \<Rightarrow>
        ebind (py_getitem page ''title'') (\<lambda>title.
        ebind (py_getitem section ''heading'') (\<lambda>heading.
          let u = str_uuid L (uuid5 L ns (unique_path title heading lesson_name i))
          in Inr (levels @ [JObj [(''num'', JInt i), (''uid'', JStr u)]],
                  AList.update u [title, heading, lesson_name, JInt i] drill_registry))))"

text \<open>\<^verbatim>\<open>lesson if isinstance(lesson, str) else lesson['name']\<close>\<close>

definition lesson_name_of :: "json \<Rightarrow> error + json" where
  "lesson_name_of lesson =
     (if isinstance_str lesson then Inr lesson else py_getitem lesson ''name'')"

text \<open>
  The body of \<^verbatim>\<open>for lesson in section["lessons"]\<close> (lines 42 to 63).  Its state is
  \<^verbatim>\<open>processed_lessons\<close> and the registry.
\<close>

definition lesson_body ::
  "('u, 't) libs \<Rightarrow> 'u \<Rightarrow> json \<Rightarrow> json \<Rightarrow> json \<Rightarrow> json list \<times> registry
     \<Rightarrow> error + json list \<times> registry" where
  "lesson_body L ns page section lesson st =
     (case st of (processed_lessons, drill_registry) \<Rightarrow>
        ebind (lesson_name_of lesson) (\<lambda>lesson_name.
        ebind (for_each (level_body L ns page section lesson_name) [1, 2, 3]
                 ([], drill_registry)) (\<lambda>(levels, drill_registry').
          Inr (processed_lessons @ [JObj [(''name'', lesson_name), (''levels'', JList levels)]],
               drill_registry'))))"

text \<open>
  The script changes the schema in place.  The parsed schema is a tree (no object is
  shared), so the model builds the changed tree instead: a loop over the elements of a
  list collects the elements as the body left them, and \<open>mutated\<close> puts them back.  A
  string or a dictionary that is iterated yields new strings, and stays as it is.
\<close>

fun mutated :: "json \<Rightarrow> json list \<Rightarrow> json" where
  "mutated (JList xs) ys = JList ys"
| "mutated c ys = c"

fun with_item :: "json \<Rightarrow> string \<Rightarrow> json \<Rightarrow> json" where
  "with_item (JObj kvs) k v = JObj (AList.update k v kvs)"
| "with_item x k v = x"

text \<open>
  The body of \<^verbatim>\<open>for section in page["sections"]\<close> (lines 39 to 66).  Its state is the list
  of the sections processed so far, as they are now, and the registry.
\<close>

definition section_body ::
  "('u, 't) libs \<Rightarrow> 'u \<Rightarrow> json \<Rightarrow> json \<Rightarrow> json list \<times> registry
     \<Rightarrow> error + json list \<times> registry" where
  "section_body L ns page section st =
     (case st of (sections, drill_registry) \<Rightarrow>
        ebind (py_getitem section ''lessons'') (\<lambda>lessons.
        ebind (py_iter lessons) (\<lambda>ls.
        ebind (for_each (lesson_body L ns page section) ls ([], drill_registry))
          (\<lambda>(processed_lessons, drill_registry').
        ebind (py_setitem section ''lessons'' (JList processed_lessons)) (\<lambda>section'.
          Inr (sections @ [section'], drill_registry'))))))"

text \<open>The body of \<^verbatim>\<open>for page in schema["pages"]\<close> (lines 38 to 66).\<close>

definition page_body ::
  "('u, 't) libs \<Rightarrow> 'u \<Rightarrow> json \<Rightarrow> json list \<times> registry \<Rightarrow> error + json list \<times> registry" where
  "page_body L ns page st =
     (case st of (pages, drill_registry) \<Rightarrow>
        ebind (py_getitem page ''sections'') (\<lambda>sections.
        ebind (py_iter sections) (\<lambda>ss.
        ebind (for_each (section_body L ns page) ss ([], drill_registry))
          (\<lambda>(sections', drill_registry').
          Inr (pages @ [with_item page ''sections'' (mutated sections sections')],
               drill_registry')))))"

text \<open>
  Lines 24 to 66: the seed, the namespace, the navigation items and the loop over the
  pages, which starts from the empty registry.  The result is the schema as the loop left
  it, the navigation items and the registry.
\<close>

definition data_processing ::
  "('u, 't) libs \<Rightarrow> json \<Rightarrow> error + json \<times> json list \<times> registry" where
  "data_processing L schema =
     ebind (seed_string schema) (\<lambda>seed.
     ebind (NAMESPACE L seed) (\<lambda>ns.
     ebind (nav_items schema) (\<lambda>nav.
     ebind (py_getitem schema ''pages'') (\<lambda>pages.
     ebind (py_iter pages) (\<lambda>ps.
     ebind (for_each (page_body L ns) ps ([], [])) (\<lambda>(pages', drill_registry).
       Inr (with_item schema ''pages'' (mutated pages pages'), nav, drill_registry)))))))"

subsection \<open>Output (lines 68 to 112)\<close>

text \<open>
  What the script does to the file system, in order: \<^verbatim>\<open>os.makedirs\<close> and, for every
  \<^verbatim>\<open>open(path, "w")\<close> with its \<^verbatim>\<open>write\<close>, the path and the text.  Failures of the file
  system itself and the messages printed to the console are not modelled.
\<close>

datatype effect = MakeDirs string | WriteFile string string

text \<open>\<^verbatim>\<open>os.path.join(a, b)\<close> for a directory name \<open>a\<close> that does not end in a slash.\<close>

definition os_path_join :: "string \<Rightarrow> string \<Rightarrow> string" where
  "os_path_join a b = (if b \<noteq> [] \<and> hd b = CHR ''/'' then b else a @ ''/'' @ b)"

text \<open>
  Steps in the output phase keep the effects made so far when an exception ends the run:
  \<open>attempt\<close> takes a step that has no effect and may raise, \<open>and_then\<close> continues after
  a step that has effects.
\<close>

definition attempt ::
  "error + 'a \<Rightarrow> effect list \<Rightarrow> ('a \<Rightarrow> effect list \<times> error option)
     \<Rightarrow> effect list \<times> error option" where
  "attempt m effects f = (case m of Inl e \<Rightarrow> (effects, Some e) | Inr x \<Rightarrow> f x)"

definition and_then ::
  "effect list \<times> error option \<Rightarrow> (effect list \<Rightarrow> effect list \<times> error option)
     \<Rightarrow> effect list \<times> error option" where
  "and_then r f = (case r of (effects, Some e) \<Rightarrow> (effects, Some e) | (effects, None) \<Rightarrow> f effects)"

text \<open>
  Rendering a template to a file: \<^verbatim>\<open>schema.get("config", {})\<close> is evaluated, the template is
  rendered, then the file is opened and written.
\<close>

definition render_to ::
  "('u, 't) libs \<Rightarrow> json \<Rightarrow> json list \<Rightarrow> 't \<Rightarrow> string \<Rightarrow> json \<Rightarrow> effect list
     \<Rightarrow> effect list \<times> error option" where
  "render_to L schema nav template path page effects =
     attempt (py_get schema ''config'' (JObj [])) effects (\<lambda>config.
     attempt (render L template page (JList nav) config) effects (\<lambda>html.
       (effects @ [WriteFile path html], None)))"

text \<open>The loop of step 5 over the pages, which stops at the first exception.\<close>

fun render_pages ::
  "('u, 't) libs \<Rightarrow> json \<Rightarrow> json list \<Rightarrow> 't \<Rightarrow> json list \<Rightarrow> effect list
     \<Rightarrow> effect list \<times> error option" where
  "render_pages L schema nav template [] effects = (effects, None)"
| "render_pages L schema nav template (page # pages) effects =
     attempt (py_getitem page ''title'') effects (\<lambda>title.
     and_then (render_to L schema nav template
                 (os_path_join OUTPUT_DIR (py_format title @ ''.html'')) page effects)
       (render_pages L schema nav template pages))"

text \<open>
  Steps 4 to 8 on the processed schema: the output directory, one page for every page of
  the schema, the application page, the landing page and the registry file.
\<close>

definition write_output ::
  "('u, 't) libs \<Rightarrow> json \<Rightarrow> json list \<Rightarrow> registry \<Rightarrow> effect list \<times> error option" where
  "write_output L schema nav drill_registry =
     attempt (get_template L ''list.j2'') [MakeDirs OUTPUT_DIR] (\<lambda>list_template.
     attempt (ebind (py_getitem schema ''pages'') py_iter) [MakeDirs OUTPUT_DIR] (\<lambda>ps.
     and_then (render_pages L schema nav list_template ps [MakeDirs OUTPUT_DIR]) (\<lambda>effects.
     attempt (get_template L ''app.j2'') effects (\<lambda>app_template.
     and_then (render_to L schema nav app_template (os_path_join OUTPUT_DIR ''App.html'')
                 (JObj [(''title'', JStr ''Drill'')]) effects) (\<lambda>effects.
     attempt (get_template L ''index.j2'') effects (\<lambda>index_template.
     and_then (render_to L schema nav index_template (os_path_join OUTPUT_DIR ''index.html'')
                 (JObj [(''title'', JStr ''Home'')]) effects) (\<lambda>effects.
       (effects @ [WriteFile REGISTRY_FILE (registry_json L drill_registry)], None))))))))"

text \<open>
  \<^verbatim>\<open>build\<close> from line 24 on, applied to the parsed schema: the effects on the file system
  and the exception that ended the run, if any.
\<close>

definition build :: "('u, 't) libs \<Rightarrow> json \<Rightarrow> effect list \<times> error option" where
  "build L schema =
     (case data_processing L schema of
        Inl e \<Rightarrow> ([], Some e)
      | Inr (schema', nav, drill_registry) \<Rightarrow> write_output L schema' nav drill_registry)"

section \<open>Reading a schema\<close>

text \<open>
  The statements below read schemas with total functions: \<open>field x k\<close> is \<^verbatim>\<open>x[k]\<close> where
  that is defined, \<open>elems c\<close> is what iterating \<open>c\<close> yields, \<open>name_of lesson\<close> is the
  lesson's name.  Where the script would raise they return \<open>JNull\<close> or the empty list.
\<close>

definition field :: "json \<Rightarrow> string \<Rightarrow> json" where
  "field x k = (case py_getitem x k of Inr v \<Rightarrow> v | Inl e \<Rightarrow> JNull)"

definition elems :: "json \<Rightarrow> json list" where
  "elems c = (case py_iter c of Inr xs \<Rightarrow> xs | Inl e \<Rightarrow> [])"

definition name_of :: "json \<Rightarrow> json" where
  "name_of lesson = (if isinstance_str lesson then lesson else field lesson ''name'')"

text \<open>
  A level of the schema is a page title, a section heading, a lesson name and a level
  number.  \<open>all_levels\<close> lists the levels of a schema in the order in which the loops of
  the script reach them.
\<close>

type_synonym level = "json \<times> json \<times> json \<times> int"

definition lesson_levels :: "json \<Rightarrow> json \<Rightarrow> json \<Rightarrow> level list" where
  "lesson_levels page section lesson =
     map (\<lambda>i. (field page ''title'', field section ''heading'', name_of lesson, i)) [1, 2, 3]"

definition section_levels :: "json \<Rightarrow> json \<Rightarrow> level list" where
  "section_levels page section =
     concat (map (lesson_levels page section) (elems (field section ''lessons'')))"

definition page_levels :: "json \<Rightarrow> level list" where
  "page_levels page = concat (map (section_levels page) (elems (field page ''sections'')))"

definition all_levels :: "json \<Rightarrow> level list" where
  "all_levels schema = concat (map page_levels (elems (field schema ''pages'')))"

text \<open>The number of lessons of a schema, over all its pages and sections.\<close>

definition total_lessons :: "json \<Rightarrow> nat" where
  "total_lessons schema =
     (\<Sum>page \<leftarrow> elems (field schema ''pages'').
        \<Sum>section \<leftarrow> elems (field page ''sections''). length (elems (field section ''lessons'')))"

text \<open>
  The composite key of a level, its identifier under a namespace, and the value the
  registry holds for it.
\<close>

definition composite_key :: "level \<Rightarrow> string" where
  "composite_key lv = (case lv of (title, heading, name, i) \<Rightarrow> unique_path title heading name i)"

definition uid_of :: "('u, 't) libs \<Rightarrow> 'u \<Rightarrow> level \<Rightarrow> string" where
  "uid_of L ns lv = str_uuid L (uuid5 L ns (composite_key lv))"

definition location :: "level \<Rightarrow> json list" where
  "location lv = (case lv of (title, heading, name, i) \<Rightarrow> [title, heading, name, JInt i])"

text \<open>
  Recomputing a composite key from a value of the registry, as a reader of the registry
  file would: the four entries, printed, with pipes between them.
\<close>

definition key_of_location :: "json list \<Rightarrow> string" where
  "key_of_location loc = join ''|'' (map py_format loc)"

text \<open>What the loops make of a lesson, a section and a page.\<close>

definition level_entry :: "('u, 't) libs \<Rightarrow> 'u \<Rightarrow> json \<Rightarrow> json \<Rightarrow> json \<Rightarrow> int \<Rightarrow> json" where
  "level_entry L ns title heading name i =
     JObj [(''num'', JInt i), (''uid'', JStr (uid_of L ns (title, heading, name, i)))]"

definition lesson_data :: "('u, 't) libs \<Rightarrow> 'u \<Rightarrow> json \<Rightarrow> json \<Rightarrow> json \<Rightarrow> json" where
  "lesson_data L ns page section lesson =
     JObj [(''name'', name_of lesson),
           (''levels'', JList (map (level_entry L ns (field page ''title'')
                                     (field section ''heading'') (name_of lesson)) [1, 2, 3]))]"

definition processed_section :: "('u, 't) libs \<Rightarrow> 'u \<Rightarrow> json \<Rightarrow> json \<Rightarrow> json" where
  "processed_section L ns page section =
     with_item section ''lessons''
       (JList (map (lesson_data L ns page section) (elems (field section ''lessons''))))"

definition processed_page :: "('u, 't) libs \<Rightarrow> 'u \<Rightarrow> json \<Rightarrow> json" where
  "processed_page L ns page =
     with_item page ''sections''
       (mutated (field page ''sections'')
          (map (processed_section L ns page) (elems (field page ''sections''))))"

definition store :: "('u, 't) libs \<Rightarrow> 'u \<Rightarrow> level \<Rightarrow> registry \<Rightarrow> registry" where
  "store L ns lv reg = AList.update (uid_of L ns lv) (location lv) reg"

text \<open>
  What a run yields apart from the keys of the schema that the loops leave alone: the
  exception, or the processed pages (with the levels and identifiers attached), the
  navigation items and the registry.
\<close>

definition outcome ::
  "error + json \<times> json list \<times> registry \<Rightarrow> error + json \<times> json list \<times> registry" where
  "outcome r = map_sum id (\<lambda>(schema', nav, reg). (field schema' ''pages'', nav, reg)) r"

section \<open>Examples\<close>

text \<open>
  To run the model, the library parameters are instantiated by simple functions: a UUID
  is the text it was derived from, a template is its name, a rendered page names the
  template and the page's title, the registry file lists the identifiers.
\<close>

definition text_libs :: "(string, string) libs" where
  "text_libs = \<lparr>NAMESPACE_DNS = ''dns'',
     uuid5 = (\<lambda>ns name. ns @ ''/'' @ name),
     str_uuid = (\<lambda>u. u),
     get_template = (\<lambda>name. Inr name),
     render = (\<lambda>template page nav config. Inr (template @ '' '' @ py_format (field page ''title''))),
     registry_json = (\<lambda>reg. join '','' (map fst reg))\<rparr>"

text \<open>
  A schema with one page, whose title has a pipe, one section and two lessons, the first
  a string and the second an object; and what the script makes of it.
\<close>

definition example_pages :: json where
  "example_pages =
     JList [JObj [(''title'', JStr ''A|B''),
        (''sections'', JList [JObj [(''heading'', JStr ''Vowels''),
           (''lessons'', JList [JStr ''Short A'', JObj [(''name'', JStr ''Long A'')]])]])]]"

definition example_schema :: json where
  "example_schema =
     JObj [(''config'', JObj [(''uuid_seed'', JStr ''test'')]), (''pages'', example_pages)]"

definition example_lesson1 :: json where
  "example_lesson1 =
     JObj [(''name'', JStr ''Short A''),
           (''levels'', JList [
              JObj [(''num'', JInt 1), (''uid'', JStr ''dns/test/A|B|Vowels|Short A|1'')],
              JObj [(''num'', JInt 2), (''uid'', JStr ''dns/test/A|B|Vowels|Short A|2'')],
              JObj [(''num'', JInt 3), (''uid'', JStr ''dns/test/A|B|Vowels|Short A|3'')]])]"

definition example_lesson2 :: json where
  "example_lesson2 =
     JObj [(''name'', JStr ''Long A''),
           (''levels'', JList [
              JObj [(''num'', JInt 1), (''uid'', JStr ''dns/test/A|B|Vowels|Long A|1'')],
              JObj [(''num'', JInt 2), (''uid'', JStr ''dns/test/A|B|Vowels|Long A|2'')],
              JObj [(''num'', JInt 3), (''uid'', JStr ''dns/test/A|B|Vowels|Long A|3'')]])]"

definition example_section :: json where
  "example_section =
     JObj [(''heading'', JStr ''Vowels''), (''lessons'', JList [example_lesson1, example_lesson2])]"

definition example_page :: json where
  "example_page = JObj [(''title'', JStr ''A|B''), (''sections'', JList [example_section])]"

definition example_processed :: json where
  "example_processed =
     JObj [(''config'', JObj [(''uuid_seed'', JStr ''test'')]), (''pages'', JList [example_page])]"

definition example_nav :: "json list" where
  "example_nav = [JObj [(''title'', JStr ''A|B''), (''url'', JStr ''A|B.html'')]]"

definition example_registry :: registry where
  "example_registry =
     [(''dns/test/A|B|Vowels|Short A|1'', [JStr ''A|B'', JStr ''Vowels'', JStr ''Short A'', JInt 1]),
      (''dns/test/A|B|Vowels|Short A|2'', [JStr ''A|B'', JStr ''Vowels'', JStr ''Short A'', JInt 2]),
      (''dns/test/A|B|Vowels|Short A|3'', [JStr ''A|B'', JStr ''Vowels'', JStr ''Short A'', JInt 3]),
      (''dns/test/A|B|Vowels|Long A|1'', [JStr ''A|B'', JStr ''Vowels'', JStr ''Long A'', JInt 1]),
      (''dns/test/A|B|Vowels|Long A|2'', [JStr ''A|B'', JStr ''Vowels'', JStr ''Long A'', JInt 2]),
      (''dns/test/A|B|Vowels|Long A|3'', [JStr ''A|B'', JStr ''Vowels'', JStr ''Long A'', JInt 3])]"

text \<open>
  The same pages in a schema with another key and with more configuration; in a schema
  with no configuration; and in one whose configuration has no seed.
\<close>

definition example_schema2 :: json where
  "example_schema2 =
     JObj [(''version'', JInt 2),
           (''config'', JObj [(''theme'', JStr ''dark''), (''uuid_seed'', JStr ''test'')]),
           (''pages'', example_pages)]"

definition example_processed2 :: json where
  "example_processed2 =
     JObj [(''version'', JInt 2),
           (''config'', JObj [(''theme'', JStr ''dark''), (''uuid_seed'', JStr ''test'')]),
           (''pages'', JList [example_page])]"

definition no_config_schema :: json where
  "no_config_schema = JObj [(''pages'', example_pages)]"

definition no_seed_schema :: json where
  "no_seed_schema = JObj [(''config'', JObj [(''theme'', JStr ''dark'')]), (''pages'', example_pages)]"

text \<open>
  Two pages whose only lessons have the same composite keys, though the titles and the
  headings differ: \<open>A|B\<close> with \<open>C\<close>, then \<open>A\<close> with \<open>B|C\<close>.
\<close>

definition clash_schema :: json where
  "clash_schema =
     JObj [(''config'', JObj [(''uuid_seed'', JStr ''test'')]),
           (''pages'', JList [
              JObj [(''title'', JStr ''A|B''),
                    (''sections'', JList [JObj [(''heading'', JStr ''C''),
                                                (''lessons'', JList [JStr ''L''])]])],
              JObj [(''title'', JStr ''A''),
                    (''sections'', JList [JObj [(''heading'', JStr ''B|C''),
                                                (''lessons'', JList [JStr ''L''])]])]])]"

definition clash_registry :: registry where
  "clash_registry =
     [(''dns/test/A|B|C|L|1'', [JStr ''A'', JStr ''B|C'', JStr ''L'', JInt 1]),
      (''dns/test/A|B|C|L|2'', [JStr ''A'', JStr ''B|C'', JStr ''L'', JInt 2]),
      (''dns/test/A|B|C|L|3'', [JStr ''A'', JStr ''B|C'', JStr ''L'', JInt 3])]"

text \<open>Schemas with a key missing: no pages; a page with no sections; a section with no lessons.\<close>

definition no_pages_schema :: json where
  "no_pages_schema = JObj [(''config'', JObj [(''uuid_seed'', JStr ''test'')])]"

definition no_sections_schema :: json where
  "no_sections_schema = JObj [(''pages'', JList [JObj [(''title'', JStr ''P'')]])]"

definition no_lessons_schema :: json where
  "no_lessons_schema =
     JObj [(''pages'', JList [JObj [(''title'', JStr ''P''),
             (''sections'', JList [JObj [(''heading'', JStr ''H'')]])]])]"

text \<open>Empty collections: no pages; a page with no sections; a section with no lessons.\<close>

definition empty_schema :: json where
  "empty_schema = JObj [(''pages'', JList [])]"

definition empty_page :: json where
  "empty_page = JObj [(''title'', JStr ''P''), (''sections'', JList [])]"

definition empty_section :: json where
  "empty_section = JObj [(''heading'', JStr ''H''), (''lessons'', JList [])]"

definition sparse_schema :: json where
  "sparse_schema =
     JObj [(''pages'', JList [empty_page,
                              JObj [(''title'', JStr ''Q''), (''sections'', JList [empty_section])]])]"

section \<open>The loops in closed form\<close>

lemma ebind_Inl [simp]: "ebind (Inl e) f = Inl e"
  by (simp add: ebind_def)

lemma ebind_Inr [simp]: "ebind (Inr x) f = f x"
  by (simp add: ebind_def)

lemma ebind_eq_Inr: "ebind m f = Inr y \<longleftrightarrow> (\<exists>x. m = Inr x \<and> f x = Inr y)"
  by (cases m) simp_all

lemma field_getitem [simp]: "py_getitem x k = Inr v \<Longrightarrow> field x k = v"
  by (simp add: field_def)

lemma elems_iter [simp]: "py_iter c = Inr xs \<Longrightarrow> elems c = xs"
  by (simp add: elems_def)

lemma getitem_obj: "py_getitem x k = Inr v \<Longrightarrow> \<exists>kvs. x = JObj kvs \<and> map_of kvs k = Some v"
  by (cases x) (auto split: option.splits)

lemma str_int_format [simp]: "py_format (JInt i) = str_int i"
  by simp

lemma unique_path_key: "unique_path t h n i = composite_key (t, h, n, i)"
  by (simp add: composite_key_def)

lemma level_body_ok:
  assumes "py_getitem page ''title'' = Inr t" and "py_getitem section ''heading'' = Inr h"
  shows "level_body L ns page section n i (lv, reg) =
           Inr (lv @ [level_entry L ns t h n i], store L ns (t, h, n, i) reg)"
  using assms
  by (simp add: level_body_def level_entry_def store_def uid_of_def unique_path_key
      location_def Let_def)

lemma level_loop_ok:
  assumes "py_getitem page ''title'' = Inr t" and "py_getitem section ''heading'' = Inr h"
  shows "for_each (level_body L ns page section n) is (lv, reg) =
           Inr (lv @ map (level_entry L ns t h n) is,
                fold (\<lambda>i. store L ns (t, h, n, i)) is reg)"
  by (induction "is" arbitrary: lv reg) (simp_all add: level_body_ok [OF assms])

lemma level_body_fields:
  assumes "level_body L ns page section n i st = Inr st'"
  shows "\<exists>t h. py_getitem page ''title'' = Inr t \<and> py_getitem section ''heading'' = Inr h"
  using assms by (cases st) (auto simp: level_body_def ebind_eq_Inr)

lemma lesson_body_ok:
  assumes "lesson_body L ns page section lesson (acc, reg) = Inr (acc', reg')"
  shows "acc' = acc @ [lesson_data L ns page section lesson]
         \<and> reg' = fold (store L ns) (lesson_levels page section lesson) reg
         \<and> lesson_name_of lesson = Inr (name_of lesson)
         \<and> (\<exists>t h. py_getitem page ''title'' = Inr t \<and> py_getitem section ''heading'' = Inr h)"
proof -
  from assms obtain n lv where n: "lesson_name_of lesson = Inr n"
    and loop: "for_each (level_body L ns page section n) [1, 2, 3] ([], reg) = Inr (lv, reg')"
    and acc': "acc' = acc @ [JObj [(''name'', n), (''levels'', JList lv)]]"
    by (auto simp: lesson_body_def ebind_eq_Inr)
  from loop obtain st where "level_body L ns page section n 1 ([], reg) = Inr st"
    by (auto split: sum.splits)
  from level_body_fields [OF this]
  obtain t h where t: "py_getitem page ''title'' = Inr t"
    and h: "py_getitem section ''heading'' = Inr h"
    by blast
  have nm: "name_of lesson = n"
    using n by (auto simp: name_of_def lesson_name_of_def split: if_splits)
  from loop have "lv = map (level_entry L ns t h n) [1, 2, 3]"
    and "reg' = fold (\<lambda>i. store L ns (t, h, n, i)) [1, 2, 3] reg"
    unfolding level_loop_ok [OF t h] by simp_all
  with acc' nm n t h show ?thesis
    by (simp add: lesson_data_def lesson_levels_def)
qed

text \<open>A loop whose body appends one element and stores some levels.\<close>

lemma for_each_collect:
  assumes body: "\<And>x acc reg acc' reg'. x \<in> set xs \<Longrightarrow> body x (acc, reg) = Inr (acc', reg')
                   \<Longrightarrow> acc' = acc @ [out x] \<and> reg' = fold st (lv x) reg"
      and run: "for_each body xs (acc, reg) = Inr (acc', reg')"
  shows "acc' = acc @ map out xs \<and> reg' = fold st (concat (map lv xs)) reg"
  using assms
proof (induction xs arbitrary: acc reg)
  case Nil
  then show ?case by simp
next
  case (Cons x xs)
  from Cons.prems(2) obtain acc1 reg1 where
    1: "body x (acc, reg) = Inr (acc1, reg1)" and
    2: "for_each body xs (acc1, reg1) = Inr (acc', reg')"
    by (auto split: sum.splits)
  from Cons.prems(1) [OF _ 1] have 3: "acc1 = acc @ [out x]" "reg1 = fold st (lv x) reg"
    by simp_all
  have "acc' = acc1 @ map out xs \<and> reg' = fold st (concat (map lv xs)) reg1"
    by (rule Cons.IH [OF _ 2]) (auto dest: Cons.prems(1) [rotated])
  with 3 show ?case by simp
qed

lemma for_each_all_ok:
  assumes "for_each body xs s = Inr s'" and "x \<in> set xs"
  shows "\<exists>s1 s2. body x s1 = Inr s2"
  using assms by (induction xs arbitrary: s) (auto split: sum.splits)

lemma section_body_ok:
  assumes "section_body L ns page section (acc, reg) = Inr (acc', reg')"
  shows "acc' = acc @ [processed_section L ns page section]
         \<and> reg' = fold (store L ns) (section_levels page section) reg
         \<and> (\<exists>kvs lessons ls. section = JObj kvs \<and> map_of kvs ''lessons'' = Some lessons
               \<and> py_iter lessons = Inr ls)"
proof -
  from assms obtain lessons ls processed section' where
    lessons: "py_getitem section ''lessons'' = Inr lessons" and
    ls: "py_iter lessons = Inr ls" and
    loop: "for_each (lesson_body L ns page section) ls ([], reg) = Inr (processed, reg')" and
    set: "py_setitem section ''lessons'' (JList processed) = Inr section'" and
    acc': "acc' = acc @ [section']"
    by (auto simp: section_body_def ebind_eq_Inr)
  from lessons obtain kvs where kvs: "section = JObj kvs" "map_of kvs ''lessons'' = Some lessons"
    by (auto dest: getitem_obj)
  have "processed = [] @ map (lesson_data L ns page section) ls
        \<and> reg' = fold (store L ns) (concat (map (lesson_levels page section) ls)) reg"
    by (rule for_each_collect [OF _ loop]) (auto dest: lesson_body_ok)
  with lessons ls set acc' kvs show ?thesis
    by (auto simp: processed_section_def section_levels_def)
qed

lemma page_body_ok:
  assumes "page_body L ns page (acc, reg) = Inr (acc', reg')"
  shows "acc' = acc @ [processed_page L ns page]
         \<and> reg' = fold (store L ns) (page_levels page) reg
         \<and> (\<exists>kvs sections ss. page = JObj kvs \<and> map_of kvs ''sections'' = Some sections
               \<and> py_iter sections = Inr ss)"
proof -
  from assms obtain sections ss sections' where
    sections: "py_getitem page ''sections'' = Inr sections" and
    ss: "py_iter sections = Inr ss" and
    loop: "for_each (section_body L ns page) ss ([], reg) = Inr (sections', reg')" and
    acc': "acc' = acc @ [with_item page ''sections'' (mutated sections sections')]"
    by (auto simp: page_body_def ebind_eq_Inr)
  from sections obtain kvs where kvs: "page = JObj kvs" "map_of kvs ''sections'' = Some sections"
    by (auto dest: getitem_obj)
  have "sections' = [] @ map (processed_section L ns page) ss
        \<and> reg' = fold (store L ns) (concat (map (section_levels page) ss)) reg"
    by (rule for_each_collect [OF _ loop]) (auto dest: section_body_ok)
  with sections ss acc' kvs show ?thesis
    by (auto simp: processed_page_def page_levels_def)
qed

lemma NAMESPACE_ok: "NAMESPACE L seed = Inr ns \<Longrightarrow> \<exists>s. seed = JStr s \<and> ns = uuid5 L (NAMESPACE_DNS L) s"
  by (cases seed) auto

lemma data_processing_ok:
  assumes "data_processing L schema = Inr (schema', nav, reg)"
  shows "\<exists>seed. seed_string schema = Inr (JStr seed)
           \<and> reg = fold (store L (uuid5 L (NAMESPACE_DNS L) seed)) (all_levels schema) []
           \<and> schema' = with_item schema ''pages''
                 (mutated (field schema ''pages'')
                    (map (processed_page L (uuid5 L (NAMESPACE_DNS L) seed))
                       (elems (field schema ''pages''))))
           \<and> nav_items schema = Inr nav"
proof -
  from assms obtain seed ns pages ps pages' where
    seed: "seed_string schema = Inr seed" and
    ns: "NAMESPACE L seed = Inr ns" and
    nav: "nav_items schema = Inr nav" and
    pages: "py_getitem schema ''pages'' = Inr pages" and
    ps: "py_iter pages = Inr ps" and
    loop: "for_each (page_body L ns) ps ([], []) = Inr (pages', reg)" and
    schema': "schema' = with_item schema ''pages'' (mutated pages pages')"
    by (auto simp: data_processing_def ebind_eq_Inr)
  from ns obtain s where s: "seed = JStr s" "ns = uuid5 L (NAMESPACE_DNS L) s"
    by (auto dest: NAMESPACE_ok)
  have "pages' = [] @ map (processed_page L ns) ps
        \<and> reg = fold (store L ns) (concat (map page_levels ps)) []"
    by (rule for_each_collect [OF _ loop]) (auto dest: page_body_ok)
  with seed s nav pages ps schema' show ?thesis
    by (auto simp: all_levels_def)
qed

section \<open>The registry as a list of stores\<close>

lemma store_keys: "fst ` set (fold (store L ns) lvs reg) = fst ` set reg \<union> uid_of L ns ` set lvs"
  by (induction lvs arbitrary: reg) (auto simp: store_def AList.dom_update)

lemma store_distinct:
  "distinct (map fst reg) \<Longrightarrow> distinct (map fst (fold (store L ns) lvs reg))"
  by (induction lvs arbitrary: reg) (simp_all add: store_def AList.distinct_update)

lemma store_entries:
  assumes "(u, loc) \<in> set (fold (store L ns) lvs reg)"
  shows "(u, loc) \<in> set reg \<or> (\<exists>lv \<in> set lvs. u = uid_of L ns lv \<and> loc = location lv)"
  using assms
proof (induction lvs arbitrary: reg)
  case Nil
  then show ?case by simp
next
  case (Cons lv lvs)
  from Cons.prems have "(u, loc) \<in> set (fold (store L ns) lvs (store L ns lv reg))"
    by simp
  from Cons.IH [OF this] show ?case
  proof
    assume "(u, loc) \<in> set (store L ns lv reg)"
    then have "(u, loc) \<in> set reg \<or> (u = uid_of L ns lv \<and> loc = location lv)"
      unfolding store_def by (induction reg) (auto split: if_splits)
    then show ?thesis by auto
  qed auto
qed

lemma store_lookup_other:
  "u \<notin> uid_of L ns ` set lvs \<Longrightarrow> map_of (fold (store L ns) lvs reg) u = map_of reg u"
  by (induction lvs arbitrary: reg) (auto simp: store_def AList.update_conv')

lemma store_lookup_last:
  assumes "uid_of L ns lv \<notin> uid_of L ns ` set after"
  shows "map_of (fold (store L ns) (before @ lv # after) reg) (uid_of L ns lv) = Some (location lv)"
  using assms by (simp add: store_lookup_other) (simp add: store_def AList.update_conv')

lemma store_length:
  assumes "distinct (map (uid_of L ns) lvs)"
  shows "length (fold (store L ns) lvs []) = length lvs"
proof -
  have "length (fold (store L ns) lvs []) = length (map fst (fold (store L ns) lvs []))"
    by simp
  also have "\<dots> = card (set (map fst (fold (store L ns) lvs [])))"
    by (rule distinct_card [symmetric]) (simp add: store_distinct)
  also have "\<dots> = card (uid_of L ns ` set lvs)"
    using store_keys [of L ns lvs "[]"] by simp
  also have "\<dots> = card (set (map (uid_of L ns) lvs))"
    by simp
  also have "\<dots> = length lvs"
    using distinct_card [OF assms] by simp
  finally show ?thesis .
qed

lemma one_entry:
  assumes "distinct (map fst reg)" and "map_of reg u = Some loc"
  shows "filter (\<lambda>e. fst e = u) reg = [(u, loc)]"
  using assms
proof (induction reg)
  case Nil
  then show ?case by simp
next
  case (Cons e reg)
  show ?case
  proof (cases "fst e = u")
    case True
    with Cons.prems have "e = (u, loc)" by (cases e) simp
    moreover from True Cons.prems(1) have "u \<notin> fst ` set reg"
      by auto
    then have "filter (\<lambda>e. fst e = u) reg = []"
      unfolding filter_empty_conv by force
    ultimately show ?thesis by simp
  next
    case False
    with Cons show ?thesis by (cases e) auto
  qed
qed

lemma length_lesson_levels [simp]: "length (lesson_levels page section lesson) = 3"
  by (simp add: lesson_levels_def)

lemma length_section_levels:
  "length (section_levels page section) = 3 * length (elems (field section ''lessons''))"
  by (simp add: section_levels_def length_concat comp_def sum_list_triv)

lemma length_all_levels: "length (all_levels schema) = 3 * total_lessons schema"
  by (simp add: all_levels_def page_levels_def total_lessons_def length_concat comp_def
      length_section_levels sum_list_const_mult)

section \<open>The processed schema\<close>

lemma field_update_same [simp]: "field (JObj (AList.update k v kvs)) k = v"
  by (simp add: field_def AList.update_conv')

lemma field_with_item_other: "k' \<noteq> k \<Longrightarrow> field (with_item x k v) k' = field x k'"
  by (cases x) (simp_all add: field_def AList.update_conv')

lemma elems_not_list:
  assumes "x \<in> set (elems c)" and "x = JObj kvs"
  shows "\<exists>xs. c = JList xs"
  using assms by (cases c) (auto simp: elems_def)

lemma elems_mutated:
  assumes "\<And>x. x \<in> set (elems c) \<Longrightarrow> \<exists>kvs. x = JObj kvs"
  shows "elems (mutated c (map f (elems c))) = map f (elems c)"
proof (cases "elems c")
  case Nil
  then show ?thesis by (cases c) (simp_all add: elems_def)
next
  case (Cons x xs)
  then have "x \<in> set (elems c)" by simp
  with assms obtain kvs where "x = JObj kvs" by blast
  with \<open>x \<in> set (elems c)\<close> obtain ys where "c = JList ys"
    using elems_not_list by blast
  then show ?thesis by (simp add: elems_def)
qed

lemma page_body_sections:
  assumes "page_body L ns page st = Inr st'" and "s \<in> set (elems (field page ''sections''))"
  shows "\<exists>s1 s2. section_body L ns page s s1 = Inr s2"
proof -
  obtain acc reg where st: "st = (acc, reg)" by (cases st)
  from assms(1) obtain sections ss r where
    "py_getitem page ''sections'' = Inr sections" "py_iter sections = Inr ss" and
    loop: "for_each (section_body L ns page) ss ([], reg) = Inr r"
    unfolding st by (auto simp: page_body_def ebind_eq_Inr)
  with assms(2) have "s \<in> set ss" by simp
  from for_each_all_ok [OF loop this] show ?thesis .
qed

lemma section_body_lessons:
  assumes "section_body L ns page section st = Inr st'"
      and "l \<in> set (elems (field section ''lessons''))"
  shows "\<exists>s1 s2. lesson_body L ns page section l s1 = Inr s2"
proof -
  obtain acc reg where st: "st = (acc, reg)" by (cases st)
  from assms(1) obtain lessons ls r where
    "py_getitem section ''lessons'' = Inr lessons" "py_iter lessons = Inr ls" and
    loop: "for_each (lesson_body L ns page section) ls ([], reg) = Inr r"
    unfolding st by (auto simp: section_body_def ebind_eq_Inr)
  with assms(2) have "l \<in> set ls" by simp
  from for_each_all_ok [OF loop this] show ?thesis .
qed

lemma data_processing_pages:
  assumes "data_processing L schema = Inr r" and "seed_string schema = Inr (JStr seed)"
      and "p \<in> set (elems (field schema ''pages''))"
  shows "\<exists>s1 s2. page_body L (uuid5 L (NAMESPACE_DNS L) seed) p s1 = Inr s2"
proof -
  from assms(1,2) obtain pages ps r' where
    "py_getitem schema ''pages'' = Inr pages" "py_iter pages = Inr ps" and
    loop: "for_each (page_body L (uuid5 L (NAMESPACE_DNS L) seed)) ps ([], []) = Inr r'"
    by (auto simp: data_processing_def ebind_eq_Inr)
  with assms(3) have "p \<in> set ps" by simp
  from for_each_all_ok [OF loop this] show ?thesis .
qed

lemma section_body_obj:
  assumes "section_body L ns page section st = Inr st'"
  shows "\<exists>kvs. section = JObj kvs"
  using assms by (cases st; cases st') (auto dest: section_body_ok)

lemma page_body_obj:
  assumes "page_body L ns page st = Inr st'"
  shows "\<exists>kvs. page = JObj kvs"
  using assms by (cases st; cases st') (auto dest: page_body_ok)

lemma processed_page_sections:
  assumes "page_body L ns p st = Inr st'"
  shows "elems (field (processed_page L ns p) ''sections'') =
           map (processed_section L ns p) (elems (field p ''sections''))"
proof -
  from page_body_obj [OF assms] obtain kvs where "p = JObj kvs" ..
  moreover have "elems (mutated (field p ''sections'')
      (map (processed_section L ns p) (elems (field p ''sections'')))) =
      map (processed_section L ns p) (elems (field p ''sections''))"
    by (rule elems_mutated) (auto dest: page_body_sections [OF assms] section_body_obj)
  ultimately show ?thesis
    by (simp add: processed_page_def)
qed

lemma processed_section_lessons:
  assumes "section_body L ns p s st = Inr st'"
  shows "field (processed_section L ns p s) ''lessons'' =
           JList (map (lesson_data L ns p s) (elems (field s ''lessons'')))"
proof -
  from section_body_obj [OF assms] obtain kvs where "s = JObj kvs" ..
  then show ?thesis
    by (simp add: processed_section_def)
qed

lemma processed_pages:
  assumes "data_processing L schema = Inr (schema', nav, reg)"
      and "seed_string schema = Inr (JStr seed)"
  shows "elems (field schema' ''pages'') =
           map (processed_page L (uuid5 L (NAMESPACE_DNS L) seed)) (elems (field schema ''pages''))"
proof -
  let ?ns = "uuid5 L (NAMESPACE_DNS L) seed"
  from data_processing_ok [OF assms(1)] assms(2)
  have schema': "schema' = with_item schema ''pages''
      (mutated (field schema ''pages'') (map (processed_page L ?ns) (elems (field schema ''pages''))))"
    by auto
  from assms(1) obtain pages where "py_getitem schema ''pages'' = Inr pages"
    by (auto simp: data_processing_def ebind_eq_Inr)
  then obtain kvs where "schema = JObj kvs"
    by (auto dest: getitem_obj)
  moreover have "elems (mutated (field schema ''pages'')
      (map (processed_page L ?ns) (elems (field schema ''pages'')))) =
      map (processed_page L ?ns) (elems (field schema ''pages''))"
    by (rule elems_mutated) (auto dest: data_processing_pages [OF assms] page_body_obj)
  ultimately show ?thesis
    by (simp add: schema')
qed

lemma field_lesson_data:
  "field (lesson_data L ns p s l) ''name'' = name_of l"
  "field (lesson_data L ns p s l) ''levels'' =
     JList (map (level_entry L ns (field p ''title'') (field s ''heading'') (name_of l)) [1, 2, 3])"
  by (simp_all add: lesson_data_def field_def)

section \<open>The registry of a run\<close>

lemma uid_of_comp: "uid_of L ns = (\<lambda>key. str_uuid L (uuid5 L ns key)) \<circ> composite_key"
  by (rule ext) (simp add: uid_of_def)

lemma registry_closed_form:
  assumes "data_processing L schema = Inr (schema', nav, reg)"
      and "seed_string schema = Inr (JStr seed)"
  shows "reg = fold (store L (uuid5 L (NAMESPACE_DNS L) seed)) (all_levels schema) []"
  using data_processing_ok [OF assms(1)] assms(2) by auto

lemma key_of_location: "key_of_location (location lv) = composite_key lv"
  by (cases lv) (simp add: key_of_location_def location_def composite_key_def unique_path_def)

section \<open>What a run depends on\<close>

lemma outcome_simps [simp]:
  "outcome (Inl e) = Inl e"
  "outcome (Inr (schema', nav, reg)) = Inr (field schema' ''pages'', nav, reg)"
  by (simp_all add: outcome_def)

lemma data_processing_outcome:
  "outcome (data_processing L schema) =
     ebind (seed_string schema) (\<lambda>seed.
     ebind (NAMESPACE L seed) (\<lambda>ns.
     ebind (ebind (py_getitem schema ''pages'') (\<lambda>pages.
            ebind (py_iter pages) (\<lambda>ps. for_each nav_item ps []))) (\<lambda>nav.
     ebind (py_getitem schema ''pages'') (\<lambda>pages.
     ebind (py_iter pages) (\<lambda>ps.
     ebind (for_each (page_body L ns) ps ([], [])) (\<lambda>(pages', drill_registry).
       Inr (mutated pages pages', nav, drill_registry)))))))"
proof (cases "py_getitem schema ''pages''")
  case (Inl e)
  then show ?thesis
    by (simp add: data_processing_def nav_items_def ebind_def split: sum.splits)
next
  case (Inr pages)
  then obtain kvs where "schema = JObj kvs"
    by (auto dest: getitem_obj)
  then show ?thesis
    by (simp add: data_processing_def nav_items_def ebind_def split: sum.splits prod.splits)
qed

lemma outcome_cong:
  assumes "seed_string S1 = seed_string S2"
      and "py_getitem S1 ''pages'' = py_getitem S2 ''pages''"
  shows "outcome (data_processing L S1) = outcome (data_processing L S2)"
  unfolding data_processing_outcome assms ..

lemma processed_schema:
  assumes "data_processing L S = Inr (schema', nav, reg)"
  shows "schema' = with_item S ''pages'' (field schema' ''pages'')"
proof -
  from assms obtain pages pages' where
    pages: "py_getitem S ''pages'' = Inr pages" and
    schema': "schema' = with_item S ''pages'' (mutated pages pages')"
    by (auto simp: data_processing_def ebind_eq_Inr)
  from pages obtain kvs where "S = JObj kvs"
    by (auto dest: getitem_obj)
  with schema' show ?thesis by simp
qed

section \<open>Runs that fail\<close>

lemma for_each_fails:
  assumes "x \<in> set xs" and "\<And>s. \<exists>e. body x s = Inl e"
  shows "\<exists>e. for_each body xs s = Inl e"
  using assms(1)
proof (induction xs arbitrary: s)
  case Nil
  then show ?case by simp
next
  case (Cons y ys)
  show ?case
  proof (cases "body y s")
    case (Inl e)
    then show ?thesis by simp
  next
    case (Inr s')
    with Cons.prems assms(2) [of s] have "x \<in> set ys" by auto
    from Cons.IH [OF this] Inr show ?thesis by simp
  qed
qed

lemma section_body_fails:
  assumes "py_getitem section ''lessons'' = Inl e"
  shows "\<exists>e'. section_body L ns page section st = Inl e'"
  using assms by (cases st) (simp add: section_body_def)

lemma page_body_fails:
  assumes "(\<exists>e. py_getitem page ''sections'' = Inl e)
           \<or> (\<exists>section \<in> set (elems (field page ''sections'')).
                 \<exists>e. py_getitem section ''lessons'' = Inl e)"
  shows "\<exists>e'. page_body L ns page st = Inl e'"
proof (cases "page_body L ns page st")
  case (Inl e')
  then show ?thesis by blast
next
  case (Inr st')
  obtain acc reg where st: "st = (acc, reg)" by (cases st)
  from Inr obtain sections ss r where
    sections: "py_getitem page ''sections'' = Inr sections" and
    ss: "py_iter sections = Inr ss" and
    loop: "for_each (section_body L ns page) ss ([], reg) = Inr r"
    unfolding st by (auto simp: page_body_def ebind_eq_Inr)
  with assms obtain s e where s: "s \<in> set ss" and e: "py_getitem s ''lessons'' = Inl e"
    by auto
  from s have "\<exists>e'. for_each (section_body L ns page) ss ([], reg) = Inl e'"
    by (rule for_each_fails) (rule section_body_fails [OF e])
  with loop show ?thesis by simp
qed

lemma data_processing_fails:
  assumes "(\<exists>e. py_getitem schema ''pages'' = Inl e)
           \<or> (\<exists>page \<in> set (elems (field schema ''pages'')).
                (\<exists>e. py_getitem page ''sections'' = Inl e)
                \<or> (\<exists>section \<in> set (elems (field page ''sections'')).
                      \<exists>e. py_getitem section ''lessons'' = Inl e))"
  shows "\<exists>e. data_processing L schema = Inl e"
proof (cases "data_processing L schema")
  case (Inl e)
  then show ?thesis by blast
next
  case (Inr r)
  then obtain ns pages ps r' where
    pages: "py_getitem schema ''pages'' = Inr pages" and
    ps: "py_iter pages = Inr ps" and
    loop: "for_each (page_body L ns) ps ([], []) = Inr r'"
    by (auto simp: data_processing_def ebind_eq_Inr)
  with assms obtain page where page: "page \<in> set ps"
    and bad: "(\<exists>e. py_getitem page ''sections'' = Inl e)
              \<or> (\<exists>section \<in> set (elems (field page ''sections'')).
                    \<exists>e. py_getitem section ''lessons'' = Inl e)"
    by auto
  from page have "\<exists>e. for_each (page_body L ns) ps ([], []) = Inl e"
    by (rule for_each_fails) (rule page_body_fails [OF bad])
  with loop show ?thesis by simp
qed

section \<open>The example run\<close>

lemmas build_defs =
  data_processing_def seed_string_def nav_items_def nav_item_def page_body_def
  section_body_def lesson_body_def level_body_def lesson_name_of_def unique_path_def Let_def

lemmas example_defs =
  example_schema_def example_pages_def example_processed_def example_page_def
  example_section_def example_lesson1_def example_lesson2_def example_nav_def
  example_registry_def

lemma str_int_digits [simp]: "str_int 1 = ''1''" "str_int 2 = ''2''" "str_int 3 = ''3''"
  by (simp_all add: str_int_def str_nat.simps hexdigit_def)

lemma example_run:
  "data_processing text_libs example_schema =
     Inr (example_processed, example_nav, example_registry)"
  by (simp add: build_defs example_defs text_libs_def)

lemma example_run2:
  "data_processing text_libs example_schema2 =
     Inr (example_processed2, example_nav, example_registry)"
  by (simp add: build_defs example_defs example_schema2_def example_processed2_def text_libs_def)

lemma example_seed: "seed_string example_schema = Inr (JStr ''test'')"
  by (simp add: seed_string_def example_schema_def)

lemmas level_defs =
  all_levels_def page_levels_def section_levels_def lesson_levels_def name_of_def
  field_def elems_def

lemma example_levels:
  "all_levels example_schema =
     [(JStr ''A|B'', JStr ''Vowels'', JStr ''Short A'', 1),
      (JStr ''A|B'', JStr ''Vowels'', JStr ''Short A'', 2),
      (JStr ''A|B'', JStr ''Vowels'', JStr ''Short A'', 3),
      (JStr ''A|B'', JStr ''Vowels'', JStr ''Long A'', 1),
      (JStr ''A|B'', JStr ''Vowels'', JStr ''Long A'', 2),
      (JStr ''A|B'', JStr ''Vowels'', JStr ''Long A'', 3)]"
  by (simp add: level_defs example_schema_def example_pages_def)

lemma clash_run:
  "\<exists>schema' nav. data_processing text_libs clash_schema = Inr (schema', nav, clash_registry)"
  by (simp add: build_defs clash_schema_def clash_registry_def text_libs_def)

lemma clash_seed: "seed_string clash_schema = Inr (JStr ''test'')"
  by (simp add: seed_string_def clash_schema_def)

lemma clash_levels:
  "all_levels clash_schema =
     [(JStr ''A|B'', JStr ''C'', JStr ''L'', 1),
      (JStr ''A|B'', JStr ''C'', JStr ''L'', 2),
      (JStr ''A|B'', JStr ''C'', JStr ''L'', 3),
      (JStr ''A'', JStr ''B|C'', JStr ''L'', 1),
      (JStr ''A'', JStr ''B|C'', JStr ''L'', 2),
      (JStr ''A'', JStr ''B|C'', JStr ''L'', 3)]"
  by (simp add: level_defs clash_schema_def)

section \<open>The claims\<close>

text \<open>
  C1.  When the processing succeeds, for every page, section and lesson of the processed
  schema and every level number \<open>n\<close> among 1, 2, 3, the \<open>n\<close>-th level of the lesson is
  \<open>{num: n, uid: u}\<close> where \<open>u\<close> prints the version-5 UUID, under the namespace, of the
  page title, the section heading, the lesson name and \<open>n\<close> joined by pipes; the namespace
  is the version-5 UUID of the seed string under the DNS namespace.  A field that is a
  string enters the key as it is (\<open>py_format (JStr s) = s\<close>), pipes included.
\<close>

theorem level_uid_derivation:
  assumes "data_processing L schema = Inr (schema', nav, reg)"
      and "seed_string schema = Inr (JStr seed)"
      and "page \<in> set (elems (field schema' ''pages''))"
      and "section \<in> set (elems (field page ''sections''))"
      and "lesson \<in> set (elems (field section ''lessons''))"
      and "n \<in> {1, 2, 3}"
  shows "elems (field lesson ''levels'') ! nat (n - 1) =
           JObj [(''num'', JInt n),
                 (''uid'', JStr (str_uuid L (uuid5 L (uuid5 L (NAMESPACE_DNS L) seed)
                    (py_format (field page ''title'') @ ''|''
                      @ py_format (field section ''heading'') @ ''|''
                      @ py_format (field lesson ''name'') @ ''|''
                      @ py_format (JInt n)))))]"
proof -
  let ?ns = "uuid5 L (NAMESPACE_DNS L) seed"
  from assms(3) obtain p where p: "p \<in> set (elems (field schema ''pages''))"
    and page: "page = processed_page L ?ns p"
    unfolding processed_pages [OF assms(1,2)] by auto
  from data_processing_pages [OF assms(1,2) p] obtain p1 p2 where
    pb: "page_body L ?ns p p1 = Inr p2" by blast
  from assms(4) obtain s where s: "s \<in> set (elems (field p ''sections''))"
    and sec: "section = processed_section L ?ns p s"
    unfolding page processed_page_sections [OF pb] by auto
  from page_body_sections [OF pb s] obtain s1 s2 where
    sb: "section_body L ?ns p s s1 = Inr s2" by blast
  from assms(5) obtain l where l: "l \<in> set (elems (field s ''lessons''))"
    and lesson: "lesson = lesson_data L ?ns p s l"
    unfolding sec processed_section_lessons [OF sb] by (auto simp: elems_def)
  have title: "field page ''title'' = field p ''title''"
    by (simp add: page processed_page_def field_with_item_other)
  have heading: "field section ''heading'' = field s ''heading''"
    by (simp add: sec processed_section_def field_with_item_other)
  from assms(6) show ?thesis
    by (auto simp: lesson field_lesson_data title heading elems_def level_entry_def
        uid_of_def composite_key_def unique_path_def)
qed

theorem level_uid_derivation_witness:
  "data_processing text_libs example_schema = Inr (example_processed, example_nav, example_registry)
   \<and> seed_string example_schema = Inr (JStr ''test'')
   \<and> example_page \<in> set (elems (field example_processed ''pages''))
   \<and> example_section \<in> set (elems (field example_page ''sections''))
   \<and> example_lesson2 \<in> set (elems (field example_section ''lessons''))
   \<and> (2::int) \<in> {1, 2, 3}
   \<and> elems (field example_lesson2 ''levels'') ! nat (2 - 1) =
        JObj [(''num'', JInt 2), (''uid'', JStr ''dns/test/A|B|Vowels|Long A|2'')]"
proof -
  have page: "example_page \<in> set (elems (field example_processed ''pages''))"
    by (simp add: example_processed_def field_def elems_def)
  have sec: "example_section \<in> set (elems (field example_page ''sections''))"
    by (simp add: example_page_def field_def elems_def)
  have lesson: "example_lesson2 \<in> set (elems (field example_section ''lessons''))"
    by (simp add: example_section_def field_def elems_def)
  have n: "(2::int) \<in> {1, 2, 3}"
    by simp
  have "elems (field example_lesson2 ''levels'') ! nat (2 - 1) =
        JObj [(''num'', JInt 2), (''uid'', JStr ''dns/test/A|B|Vowels|Long A|2'')]"
    using level_uid_derivation [OF example_run example_seed page sec lesson n]
    by (simp add: text_libs_def example_page_def example_section_def example_lesson2_def
        field_def)
  with example_run example_seed page sec lesson n show ?thesis
    by blast
qed

text \<open>
  C2.  When the processing succeeds, the pages of the processed schema correspond one to
  one and in order to the pages of the schema, and so do the sections of every page; every
  processed section holds under \<open>lessons\<close> a list that corresponds one to one and in order
  to the lessons the section had, and each entry, whether the lesson was a string or an
  object, is the object \<open>{name, levels}\<close> whose name is the string itself or the object's
  \<open>name\<close> and whose levels are exactly \<open>{num: 1, uid}\<close>, \<open>{num: 2, uid}\<close>, \<open>{num: 3, uid}\<close>
  in this order.  (\<open>list_all2 P xs ys\<close>: the lists have the same length and \<open>P\<close> holds at
  every position.)
\<close>

theorem lessons_normalised:
  assumes "data_processing L schema = Inr (schema', nav, reg)"
  shows "list_all2 (\<lambda>page page'.
           list_all2 (\<lambda>section section'.
             \<exists>lessons'. py_getitem section' ''lessons'' = Inr (JList lessons')
               \<and> list_all2 (\<lambda>lesson lesson'.
                     \<exists>u1 u2 u3. lesson' =
                       JObj [(''name'', if isinstance_str lesson then lesson
                                        else field lesson ''name''),
                             (''levels'', JList [JObj [(''num'', JInt 1), (''uid'', JStr u1)],
                                                 JObj [(''num'', JInt 2), (''uid'', JStr u2)],
                                                 JObj [(''num'', JInt 3), (''uid'', JStr u3)]])])
                   (elems (field section ''lessons'')) lessons')
             (elems (field page ''sections'')) (elems (field page' ''sections'')))
         (elems (field schema ''pages'')) (elems (field schema' ''pages''))"
proof -
  from data_processing_ok [OF assms] obtain seed where
    seed: "seed_string schema = Inr (JStr seed)" by blast
  let ?ns = "uuid5 L (NAMESPACE_DNS L) seed"
  have lesson: "\<exists>u1 u2 u3. lesson_data L ?ns p s l =
      JObj [(''name'', if isinstance_str l then l else field l ''name''),
            (''levels'', JList [JObj [(''num'', JInt 1), (''uid'', JStr u1)],
                                JObj [(''num'', JInt 2), (''uid'', JStr u2)],
                                JObj [(''num'', JInt 3), (''uid'', JStr u3)]])]" for p s l
    by (simp add: lesson_data_def level_entry_def name_of_def)
  have sec: "\<exists>lessons'. py_getitem (processed_section L ?ns p s) ''lessons'' = Inr (JList lessons')
      \<and> list_all2 (\<lambda>lesson lesson'.
            \<exists>u1 u2 u3. lesson' =
              JObj [(''name'', if isinstance_str lesson then lesson else field lesson ''name''),
                    (''levels'', JList [JObj [(''num'', JInt 1), (''uid'', JStr u1)],
                                        JObj [(''num'', JInt 2), (''uid'', JStr u2)],
                                        JObj [(''num'', JInt 3), (''uid'', JStr u3)]])])
          (elems (field s ''lessons'')) lessons'"
    if "section_body L ?ns p s s1 = Inr s2" for p s s1 s2
  proof -
    from section_body_obj [OF that] obtain kvs where "s = JObj kvs" ..
    then have "py_getitem (processed_section L ?ns p s) ''lessons'' =
        Inr (JList (map (lesson_data L ?ns p s) (elems (field s ''lessons''))))"
      by (simp add: processed_section_def AList.update_conv')
    moreover have "list_all2 (\<lambda>lesson lesson'.
            \<exists>u1 u2 u3. lesson' =
              JObj [(''name'', if isinstance_str lesson then lesson else field lesson ''name''),
                    (''levels'', JList [JObj [(''num'', JInt 1), (''uid'', JStr u1)],
                                        JObj [(''num'', JInt 2), (''uid'', JStr u2)],
                                        JObj [(''num'', JInt 3), (''uid'', JStr u3)]])])
          (elems (field s ''lessons'')) (map (lesson_data L ?ns p s) (elems (field s ''lessons'')))"
      unfolding list_all2_map2 by (rule list_all2_refl) (rule lesson)
    ultimately show ?thesis by blast
  qed
  show ?thesis
    unfolding processed_pages [OF assms seed] list_all2_map2
  proof (rule list_all2_same [THEN iffD2], rule ballI)
    fix p assume p: "p \<in> set (elems (field schema ''pages''))"
    from data_processing_pages [OF assms seed p] obtain p1 p2 where
      pb: "page_body L ?ns p p1 = Inr p2" by blast
    show "list_all2 (\<lambda>section section'.
             \<exists>lessons'. py_getitem section' ''lessons'' = Inr (JList lessons')
               \<and> list_all2 (\<lambda>lesson lesson'.
                     \<exists>u1 u2 u3. lesson' =
                       JObj [(''name'', if isinstance_str lesson then lesson
                                        else field lesson ''name''),
                             (''levels'', JList [JObj [(''num'', JInt 1), (''uid'', JStr u1)],
                                                 JObj [(''num'', JInt 2), (''uid'', JStr u2)],
                                                 JObj [(''num'', JInt 3), (''uid'', JStr u3)]])])
                   (elems (field section ''lessons'')) lessons')
             (elems (field p ''sections'')) (elems (field (processed_page L ?ns p) ''sections''))"
      unfolding processed_page_sections [OF pb] list_all2_map2
    proof (rule list_all2_same [THEN iffD2], rule ballI)
      fix s assume "s \<in> set (elems (field p ''sections''))"
      from page_body_sections [OF pb this] obtain s1 s2 where
        "section_body L ?ns p s s1 = Inr s2" by blast
      from sec [OF this]
      show "\<exists>lessons'. py_getitem (processed_section L ?ns p s) ''lessons'' = Inr (JList lessons')
        \<and> list_all2 (\<lambda>lesson lesson'.
            \<exists>u1 u2 u3. lesson' =
              JObj [(''name'', if isinstance_str lesson then lesson else field lesson ''name''),
                    (''levels'', JList [JObj [(''num'', JInt 1), (''uid'', JStr u1)],
                                        JObj [(''num'', JInt 2), (''uid'', JStr u2)],
                                        JObj [(''num'', JInt 3), (''uid'', JStr u3)]])])
          (elems (field s ''lessons'')) lessons'" .
    qed
  qed
qed

theorem lessons_normalised_witness:
  "data_processing text_libs example_schema = Inr (example_processed, example_nav, example_registry)
   \<and> list_all2 (\<lambda>page page'.
           list_all2 (\<lambda>section section'.
             \<exists>lessons'. py_getitem section' ''lessons'' = Inr (JList lessons')
               \<and> list_all2 (\<lambda>lesson lesson'.
                     \<exists>u1 u2 u3. lesson' =
                       JObj [(''name'', if isinstance_str lesson then lesson
                                        else field lesson ''name''),
                             (''levels'', JList [JObj [(''num'', JInt 1), (''uid'', JStr u1)],
                                                 JObj [(''num'', JInt 2), (''uid'', JStr u2)],
                                                 JObj [(''num'', JInt 3), (''uid'', JStr u3)]])])
                   (elems (field section ''lessons'')) lessons')
             (elems (field page ''sections'')) (elems (field page' ''sections'')))
         (elems (field example_schema ''pages'')) (elems (field example_processed ''pages''))"
  using example_run lessons_normalised [OF example_run] by (rule conjI)

text \<open>
  C3.  When the processing succeeds on a schema whose composite keys are pairwise distinct
  and on whose keys the derivation of identifiers is injective, the registry has exactly
  three times as many entries as the schema has lessons over all pages and sections.
\<close>

theorem registry_cardinality:
  assumes "data_processing L schema = Inr (schema', nav, reg)"
      and "seed_string schema = Inr (JStr seed)"
      and "distinct (map composite_key (all_levels schema))"
      and "inj_on (\<lambda>key. str_uuid L (uuid5 L (uuid5 L (NAMESPACE_DNS L) seed) key))
             (set (map composite_key (all_levels schema)))"
  shows "length reg = 3 * total_lessons schema"
proof -
  let ?ns = "uuid5 L (NAMESPACE_DNS L) seed"
  have "distinct (map (\<lambda>key. str_uuid L (uuid5 L ?ns key))
      (map composite_key (all_levels schema)))"
    using assms(3,4) unfolding distinct_map by blast
  then have "distinct (map (uid_of L ?ns) (all_levels schema))"
    by (simp add: uid_of_comp)
  then have "length (fold (store L ?ns) (all_levels schema) []) = length (all_levels schema)"
    by (rule store_length)
  then show ?thesis
    by (simp add: registry_closed_form [OF assms(1,2)] length_all_levels)
qed

theorem registry_cardinality_witness:
  "data_processing text_libs example_schema = Inr (example_processed, example_nav, example_registry)
   \<and> seed_string example_schema = Inr (JStr ''test'')
   \<and> distinct (map composite_key (all_levels example_schema))
   \<and> inj_on (\<lambda>key. str_uuid text_libs
                (uuid5 text_libs (uuid5 text_libs (NAMESPACE_DNS text_libs) ''test'') key))
         (set (map composite_key (all_levels example_schema)))
   \<and> total_lessons example_schema = 2
   \<and> length example_registry = 3 * total_lessons example_schema"
proof -
  have keys: "distinct (map composite_key (all_levels example_schema))"
    by (simp add: example_levels composite_key_def unique_path_def)
  have inj: "inj_on (\<lambda>key. str_uuid text_libs
                (uuid5 text_libs (uuid5 text_libs (NAMESPACE_DNS text_libs) ''test'') key))
         (set (map composite_key (all_levels example_schema)))"
    by (rule inj_onI) (simp add: text_libs_def)
  have total: "total_lessons example_schema = 2"
    by (simp add: total_lessons_def example_schema_def example_pages_def field_def elems_def)
  from registry_cardinality [OF example_run example_seed keys inj]
  have "length example_registry = 3 * total_lessons example_schema" .
  with example_run example_seed keys inj total show ?thesis
    by blast
qed

text \<open>
  C4.  When the processing succeeds, every identifier \<open>u\<close> of the registry is mapped to a
  list of four entries, and the composite key rebuilt from that list, derived again under
  the namespace of the seed, gives \<open>u\<close>.
\<close>

theorem registry_round_trip:
  assumes "data_processing L schema = Inr (schema', nav, reg)"
      and "seed_string schema = Inr (JStr seed)"
      and "map_of reg u = Some loc"
  shows "length loc = 4
         \<and> str_uuid L (uuid5 L (uuid5 L (NAMESPACE_DNS L) seed) (key_of_location loc)) = u"
proof -
  let ?ns = "uuid5 L (NAMESPACE_DNS L) seed"
  from assms(3) have "(u, loc) \<in> set (fold (store L ?ns) (all_levels schema) [])"
    unfolding registry_closed_form [OF assms(1,2)] by (rule map_of_SomeD)
  from store_entries [OF this] obtain lv where "u = uid_of L ?ns lv" "loc = location lv"
    by auto
  then show ?thesis
    by (cases lv) (simp add: key_of_location uid_of_def, simp add: location_def)
qed

theorem registry_round_trip_witness:
  "data_processing text_libs example_schema = Inr (example_processed, example_nav, example_registry)
   \<and> seed_string example_schema = Inr (JStr ''test'')
   \<and> map_of example_registry ''dns/test/A|B|Vowels|Long A|2'' =
        Some [JStr ''A|B'', JStr ''Vowels'', JStr ''Long A'', JInt 2]
   \<and> key_of_location [JStr ''A|B'', JStr ''Vowels'', JStr ''Long A'', JInt 2] = ''A|B|Vowels|Long A|2''
   \<and> str_uuid text_libs (uuid5 text_libs (uuid5 text_libs (NAMESPACE_DNS text_libs) ''test'')
          (key_of_location [JStr ''A|B'', JStr ''Vowels'', JStr ''Long A'', JInt 2])) =
        ''dns/test/A|B|Vowels|Long A|2''"
proof -
  have look: "map_of example_registry ''dns/test/A|B|Vowels|Long A|2'' =
        Some [JStr ''A|B'', JStr ''Vowels'', JStr ''Long A'', JInt 2]"
    by (simp add: example_registry_def)
  have key: "key_of_location [JStr ''A|B'', JStr ''Vowels'', JStr ''Long A'', JInt 2] =
      ''A|B|Vowels|Long A|2''"
    by (simp add: key_of_location_def)
  from registry_round_trip [OF example_run example_seed look]
  have "str_uuid text_libs (uuid5 text_libs (uuid5 text_libs (NAMESPACE_DNS text_libs) ''test'')
          (key_of_location [JStr ''A|B'', JStr ''Vowels'', JStr ''Long A'', JInt 2])) =
        ''dns/test/A|B|Vowels|Long A|2''"
    by simp
  with example_run example_seed look key show ?thesis
    by blast
qed

text \<open>
  C5.  When the processing succeeds and two levels of the schema, the \<open>i\<close>-th and the
  \<open>j\<close>-th in the order of the loops with \<open>i < j\<close>, have the same composite key, they have
  the same identifier; if no level after the \<open>j\<close>-th has this identifier, the registry has
  exactly one entry for it, and the entry holds the title, heading, name and number of the
  \<open>j\<close>-th level, the one processed last.
\<close>

theorem registry_last_write_wins:
  assumes "data_processing L schema = Inr (schema', nav, reg)"
      and "seed_string schema = Inr (JStr seed)"
      and "ns = uuid5 L (NAMESPACE_DNS L) seed"
      and "i < j" and "j < length (all_levels schema)"
      and "composite_key (all_levels schema ! i) = composite_key (all_levels schema ! j)"
      and "\<forall>k. j < k \<and> k < length (all_levels schema) \<longrightarrow>
             uid_of L ns (all_levels schema ! k) \<noteq> uid_of L ns (all_levels schema ! j)"
  shows "uid_of L ns (all_levels schema ! i) = uid_of L ns (all_levels schema ! j)
         \<and> filter (\<lambda>entry. fst entry = uid_of L ns (all_levels schema ! j)) reg =
             [(uid_of L ns (all_levels schema ! j), location (all_levels schema ! j))]"
proof -
  let ?lvs = "all_levels schema"
  have reg: "reg = fold (store L ns) ?lvs []"
    unfolding assms(3) by (rule registry_closed_form [OF assms(1,2)])
  have split: "?lvs = take j ?lvs @ ?lvs ! j # drop (Suc j) ?lvs"
    using assms(5) by (rule id_take_nth_drop)
  have "uid_of L ns (?lvs ! j) \<notin> uid_of L ns ` set (drop (Suc j) ?lvs)"
  proof
    assume "uid_of L ns (?lvs ! j) \<in> uid_of L ns ` set (drop (Suc j) ?lvs)"
    then obtain m where "m < length (drop (Suc j) ?lvs)"
      and "uid_of L ns (drop (Suc j) ?lvs ! m) = uid_of L ns (?lvs ! j)"
      by (auto simp: in_set_conv_nth)
    then have "Suc j + m < length ?lvs" "uid_of L ns (?lvs ! (Suc j + m)) = uid_of L ns (?lvs ! j)"
      by simp_all
    with assms(7) show False
      by (metis less_add_Suc1 add_Suc)
  qed
  then have "map_of (fold (store L ns) (take j ?lvs @ ?lvs ! j # drop (Suc j) ?lvs) [])
      (uid_of L ns (?lvs ! j)) = Some (location (?lvs ! j))"
    by (rule store_lookup_last)
  then have "map_of reg (uid_of L ns (?lvs ! j)) = Some (location (?lvs ! j))"
    unfolding reg using split by simp
  moreover have "distinct (map fst reg)"
    unfolding reg by (rule store_distinct) simp
  ultimately have "filter (\<lambda>entry. fst entry = uid_of L ns (?lvs ! j)) reg =
      [(uid_of L ns (?lvs ! j), location (?lvs ! j))]"
    by (rule one_entry [rotated])
  with assms(6) show ?thesis
    by (simp add: uid_of_def)
qed

theorem registry_last_write_wins_witness:
  "(\<exists>schema' nav. data_processing text_libs clash_schema = Inr (schema', nav, clash_registry))
   \<and> seed_string clash_schema = Inr (JStr ''test'')
   \<and> all_levels clash_schema ! 1 = (JStr ''A|B'', JStr ''C'', JStr ''L'', 2)
   \<and> all_levels clash_schema ! 4 = (JStr ''A'', JStr ''B|C'', JStr ''L'', 2)
   \<and> composite_key (all_levels clash_schema ! 1) = composite_key (all_levels clash_schema ! 4)
   \<and> length (all_levels clash_schema) = 6
   \<and> uid_of text_libs ''dns/test'' (all_levels clash_schema ! 5)
        \<noteq> uid_of text_libs ''dns/test'' (all_levels clash_schema ! 4)
   \<and> filter (\<lambda>entry. fst entry = ''dns/test/A|B|C|L|2'') clash_registry =
        [(''dns/test/A|B|C|L|2'', [JStr ''A'', JStr ''B|C'', JStr ''L'', JInt 2])]"
proof -
  from clash_run obtain schema' nav where
    run: "data_processing text_libs clash_schema = Inr (schema', nav, clash_registry)"
    by blast
  have ns: "''dns/test'' = uuid5 text_libs (NAMESPACE_DNS text_libs) ''test''"
    by (simp add: text_libs_def)
  have i: "all_levels clash_schema ! 1 = (JStr ''A|B'', JStr ''C'', JStr ''L'', 2)"
    and j: "all_levels clash_schema ! 4 = (JStr ''A'', JStr ''B|C'', JStr ''L'', 2)"
    and len: "length (all_levels clash_schema) = 6"
    by (simp_all add: clash_levels)
  have same: "composite_key (all_levels clash_schema ! 1) = composite_key (all_levels clash_schema ! 4)"
    by (simp add: clash_levels composite_key_def unique_path_def)
  have later: "uid_of text_libs ''dns/test'' (all_levels clash_schema ! 5)
        \<noteq> uid_of text_libs ''dns/test'' (all_levels clash_schema ! 4)"
    by (simp add: clash_levels uid_of_def composite_key_def unique_path_def text_libs_def)
  have last: "\<forall>k. 4 < k \<and> k < length (all_levels clash_schema) \<longrightarrow>
      uid_of text_libs ''dns/test'' (all_levels clash_schema ! k)
        \<noteq> uid_of text_libs ''dns/test'' (all_levels clash_schema ! 4)"
  proof (intro allI impI)
    fix k :: nat assume "4 < k \<and> k < length (all_levels clash_schema)"
    then have "k = 5" by (simp add: len)
    with later show "uid_of text_libs ''dns/test'' (all_levels clash_schema ! k)
        \<noteq> uid_of text_libs ''dns/test'' (all_levels clash_schema ! 4)"
      by simp
  qed
  have "(1::nat) < 4" by simp
  from registry_last_write_wins [OF run clash_seed ns this _ same last]
  have "filter (\<lambda>entry. fst entry = ''dns/test/A|B|C|L|2'') clash_registry =
        [(''dns/test/A|B|C|L|2'', [JStr ''A'', JStr ''B|C'', JStr ''L'', JInt 2])]"
    by (simp add: clash_levels uid_of_def composite_key_def unique_path_def text_libs_def
        location_def)
  with clash_run clash_seed i j same len later show ?thesis
    by blast
qed

text \<open>
  C6.  The identifiers, the processed schema and the registry are determined by the seed
  and the pages: two runs on schemas with the same seed and the same pages end in the same
  exception, or both succeed with the same processed pages (identifiers included), the same
  navigation items and the same registry, each processed schema being the schema the run
  started from with these pages put in.  Two runs on the same schema with the same seed
  therefore agree in everything.
\<close>

theorem build_deterministic:
  assumes "seed_string S1 = seed_string S2"
      and "py_getitem S1 ''pages'' = py_getitem S2 ''pages''"
  shows "outcome (data_processing L S1) = outcome (data_processing L S2)
         \<and> (\<forall>schema1 nav1 reg1 schema2 nav2 reg2.
               data_processing L S1 = Inr (schema1, nav1, reg1)
               \<and> data_processing L S2 = Inr (schema2, nav2, reg2) \<longrightarrow>
               schema1 = with_item S1 ''pages'' (field schema1 ''pages'')
               \<and> schema2 = with_item S2 ''pages'' (field schema1 ''pages'')
               \<and> nav1 = nav2 \<and> reg1 = reg2)"
proof (intro conjI allI impI)
  show eq: "outcome (data_processing L S1) = outcome (data_processing L S2)"
    using assms by (rule outcome_cong)
  fix schema1 nav1 reg1 schema2 nav2 reg2
  assume runs: "data_processing L S1 = Inr (schema1, nav1, reg1)
                \<and> data_processing L S2 = Inr (schema2, nav2, reg2)"
  with eq have same: "field schema1 ''pages'' = field schema2 ''pages''" "nav1 = nav2" "reg1 = reg2"
    by simp_all
  from runs show "schema1 = with_item S1 ''pages'' (field schema1 ''pages'')"
    by (blast dest: processed_schema)
  from runs have "schema2 = with_item S2 ''pages'' (field schema2 ''pages'')"
    by (blast dest: processed_schema)
  with same show "schema2 = with_item S2 ''pages'' (field schema1 ''pages'')"
    by simp
  from same show "nav1 = nav2" "reg1 = reg2" by simp_all
qed

theorem build_deterministic_witness:
  "seed_string example_schema = seed_string example_schema2
   \<and> py_getitem example_schema ''pages'' = py_getitem example_schema2 ''pages''
   \<and> data_processing text_libs example_schema =
        Inr (example_processed, example_nav, example_registry)
   \<and> data_processing text_libs example_schema2 =
        Inr (example_processed2, example_nav, example_registry)
   \<and> outcome (data_processing text_libs example_schema) =
        outcome (data_processing text_libs example_schema2)
   \<and> example_processed = with_item example_schema ''pages'' (field example_processed ''pages'')
   \<and> example_processed2 = with_item example_schema2 ''pages'' (field example_processed ''pages'')"
proof -
  have seed: "seed_string example_schema = seed_string example_schema2"
    by (simp add: seed_string_def example_schema_def example_schema2_def)
  have pages: "py_getitem example_schema ''pages'' = py_getitem example_schema2 ''pages''"
    by (simp add: example_schema_def example_schema2_def)
  from build_deterministic [OF seed pages, of text_libs] example_run example_run2
  have "outcome (data_processing text_libs example_schema) =
        outcome (data_processing text_libs example_schema2)"
    and "example_processed = with_item example_schema ''pages'' (field example_processed ''pages'')"
    and "example_processed2 = with_item example_schema2 ''pages'' (field example_processed ''pages'')"
    by blast+
  with seed pages example_run example_run2 show ?thesis
    by blast
qed

text \<open>
  C7.  When the schema has no \<open>config\<close>, or its \<open>config\<close> has no \<open>uuid_seed\<close>, looking up the
  seed does not raise: the seed is \<open>default_seed\<close> and the namespace is derived from it; and
  the run yields what a run on the same schema with a \<open>config\<close> that sets \<open>uuid_seed\<close> to
  \<open>default_seed\<close> yields: the same identifiers, navigation items and registry, or the same
  exception.
\<close>

theorem missing_seed_is_default_seed:
  assumes "schema = JObj kvs"
      and "map_of kvs ''config'' = None
           \<or> (\<exists>config. map_of kvs ''config'' = Some (JObj config)
                 \<and> map_of config ''uuid_seed'' = None)"
      and "map_of config' ''uuid_seed'' = Some (JStr ''default_seed'')"
  shows "seed_string schema = Inr (JStr ''default_seed'')
         \<and> NAMESPACE L (JStr ''default_seed'') = Inr (uuid5 L (NAMESPACE_DNS L) ''default_seed'')
         \<and> outcome (data_processing L schema) =
             outcome (data_processing L (with_item schema ''config'' (JObj config')))"
proof -
  have seed: "seed_string schema = Inr (JStr ''default_seed'')"
    using assms(1,2) by (auto simp: seed_string_def)
  have "seed_string (with_item schema ''config'' (JObj config')) = Inr (JStr ''default_seed'')"
    using assms(1,3) by (simp add: seed_string_def AList.update_conv')
  moreover have "py_getitem schema ''pages'' =
      py_getitem (with_item schema ''config'' (JObj config')) ''pages''"
    using assms(1) by (simp add: AList.update_conv')
  ultimately have "outcome (data_processing L schema) =
      outcome (data_processing L (with_item schema ''config'' (JObj config')))"
    using seed by (intro outcome_cong) simp_all
  with seed show ?thesis by simp
qed

theorem missing_seed_is_default_seed_witness:
  "seed_string no_config_schema = Inr (JStr ''default_seed'')
   \<and> seed_string no_seed_schema = Inr (JStr ''default_seed'')
   \<and> outcome (data_processing text_libs no_config_schema) =
        outcome (data_processing text_libs
          (with_item no_config_schema ''config'' (JObj [(''uuid_seed'', JStr ''default_seed'')])))
   \<and> outcome (data_processing text_libs no_seed_schema) =
        outcome (data_processing text_libs
          (with_item no_seed_schema ''config'' (JObj [(''uuid_seed'', JStr ''default_seed'')])))
   \<and> map (\<lambda>entry. fst entry)
        (snd (snd (projr (data_processing text_libs no_config_schema)))) =
        [''dns/default_seed/A|B|Vowels|Short A|1'', ''dns/default_seed/A|B|Vowels|Short A|2'',
         ''dns/default_seed/A|B|Vowels|Short A|3'', ''dns/default_seed/A|B|Vowels|Long A|1'',
         ''dns/default_seed/A|B|Vowels|Long A|2'', ''dns/default_seed/A|B|Vowels|Long A|3'']"
proof -
  have absent: "map_of [(''pages'', example_pages)] ''config'' = None
      \<or> (\<exists>config. map_of [(''pages'', example_pages)] ''config'' = Some (JObj config)
            \<and> map_of config ''uuid_seed'' = None)"
    by simp
  have no_seed: "map_of [(''config'', JObj [(''theme'', JStr ''dark'')]), (''pages'', example_pages)]
        ''config'' = None
      \<or> (\<exists>config. map_of [(''config'', JObj [(''theme'', JStr ''dark'')]), (''pages'', example_pages)]
              ''config'' = Some (JObj config)
            \<and> map_of config ''uuid_seed'' = None)"
    by simp
  have explicit: "map_of [(''uuid_seed'', JStr ''default_seed'')] ''uuid_seed'' =
      Some (JStr ''default_seed'')"
    by simp
  note a = missing_seed_is_default_seed [OF no_config_schema_def absent explicit, of text_libs]
  note b = missing_seed_is_default_seed [OF no_seed_schema_def no_seed explicit, of text_libs]
  have "map (\<lambda>entry. fst entry)
        (snd (snd (projr (data_processing text_libs no_config_schema)))) =
        [''dns/default_seed/A|B|Vowels|Short A|1'', ''dns/default_seed/A|B|Vowels|Short A|2'',
         ''dns/default_seed/A|B|Vowels|Short A|3'', ''dns/default_seed/A|B|Vowels|Long A|1'',
         ''dns/default_seed/A|B|Vowels|Long A|2'', ''dns/default_seed/A|B|Vowels|Long A|3'']"
    by (simp add: build_defs no_config_schema_def example_pages_def text_libs_def)
  with a b show ?thesis
    by blast
qed

text \<open>
  C8.  When \<open>schema["pages"]\<close> raises (the key is missing), or \<open>page["sections"]\<close> raises for
  some page, or \<open>section["lessons"]\<close> raises for some section of some page, the processing
  ends in an exception, so no registry is produced, and the build has no effect on the file
  system: no directory is made and no file is written.
\<close>

theorem structural_error_aborts:
  assumes "(\<exists>e. py_getitem schema ''pages'' = Inl e)
           \<or> (\<exists>page \<in> set (elems (field schema ''pages'')).
                (\<exists>e. py_getitem page ''sections'' = Inl e)
                \<or> (\<exists>section \<in> set (elems (field page ''sections'')).
                      \<exists>e. py_getitem section ''lessons'' = Inl e))"
  shows "\<exists>e. data_processing L schema = Inl e \<and> build L schema = ([], Some e)"
proof -
  from data_processing_fails [OF assms] obtain e where "data_processing L schema = Inl e" ..
  then show ?thesis by (simp add: build_def)
qed

theorem structural_error_aborts_witness:
  "py_getitem no_pages_schema ''pages'' = Inl (KeyError ''pages'')
   \<and> data_processing text_libs no_pages_schema = Inl (KeyError ''pages'')
   \<and> build text_libs no_pages_schema = ([], Some (KeyError ''pages''))
   \<and> py_getitem (hd (elems (field no_sections_schema ''pages''))) ''sections''
        = Inl (KeyError ''sections'')
   \<and> data_processing text_libs no_sections_schema = Inl (KeyError ''sections'')
   \<and> build text_libs no_sections_schema = ([], Some (KeyError ''sections''))
   \<and> py_getitem (hd (elems (field (hd (elems (field no_lessons_schema ''pages''))) ''sections'')))
        ''lessons'' = Inl (KeyError ''lessons'')
   \<and> data_processing text_libs no_lessons_schema = Inl (KeyError ''lessons'')
   \<and> build text_libs no_lessons_schema = ([], Some (KeyError ''lessons''))"
proof -
  have p: "py_getitem no_pages_schema ''pages'' = Inl (KeyError ''pages'')"
    by (simp add: no_pages_schema_def)
  have s: "py_getitem (hd (elems (field no_sections_schema ''pages''))) ''sections''
        = Inl (KeyError ''sections'')"
    by (simp add: no_sections_schema_def field_def elems_def)
  have l: "py_getitem (hd (elems (field (hd (elems (field no_lessons_schema ''pages''))) ''sections'')))
        ''lessons'' = Inl (KeyError ''lessons'')"
    by (simp add: no_lessons_schema_def field_def elems_def)
  have "\<exists>e. data_processing text_libs no_pages_schema = Inl e
          \<and> build text_libs no_pages_schema = ([], Some e)"
    by (rule structural_error_aborts) (simp add: p)
  moreover have "data_processing text_libs no_pages_schema = Inl (KeyError ''pages'')"
    by (simp add: build_defs no_pages_schema_def text_libs_def)
  ultimately have 1: "data_processing text_libs no_pages_schema = Inl (KeyError ''pages'')
      \<and> build text_libs no_pages_schema = ([], Some (KeyError ''pages''))"
    by auto
  have "\<exists>e. data_processing text_libs no_sections_schema = Inl e
          \<and> build text_libs no_sections_schema = ([], Some e)"
    by (rule structural_error_aborts)
      (simp add: no_sections_schema_def field_def elems_def)
  moreover have "data_processing text_libs no_sections_schema = Inl (KeyError ''sections'')"
    by (simp add: build_defs no_sections_schema_def text_libs_def)
  ultimately have 2: "data_processing text_libs no_sections_schema = Inl (KeyError ''sections'')
      \<and> build text_libs no_sections_schema = ([], Some (KeyError ''sections''))"
    by auto
  have "\<exists>e. data_processing text_libs no_lessons_schema = Inl e
          \<and> build text_libs no_lessons_schema = ([], Some e)"
    by (rule structural_error_aborts)
      (simp add: no_lessons_schema_def field_def elems_def)
  moreover have "data_processing text_libs no_lessons_schema = Inl (KeyError ''lessons'')"
    by (simp add: build_defs no_lessons_schema_def text_libs_def)
  ultimately have 3: "data_processing text_libs no_lessons_schema = Inl (KeyError ''lessons'')
      \<and> build text_libs no_lessons_schema = ([], Some (KeyError ''lessons''))"
    by auto
  from p s l 1 2 3 show ?thesis
    by blast
qed

text \<open>
  C9.  Replacing the configuration of a schema by one with the same value under
  \<open>uuid_seed\<close> (or also without one) changes neither the exception nor, on success, the
  processed pages with their levels and identifiers, the navigation items and the registry.
\<close>

theorem config_noninterference:
  assumes "py_getitem schema ''config'' = Inr (JObj config1)"
      and "map_of config1 ''uuid_seed'' = map_of config2 ''uuid_seed''"
  shows "outcome (data_processing L schema) =
           outcome (data_processing L (with_item schema ''config'' (JObj config2)))"
proof -
  from assms(1) obtain kvs where kvs: "schema = JObj kvs" "map_of kvs ''config'' = Some (JObj config1)"
    by (auto dest: getitem_obj)
  have "seed_string schema = seed_string (with_item schema ''config'' (JObj config2))"
    using kvs assms(2) by (simp add: seed_string_def AList.update_conv')
  moreover have "py_getitem schema ''pages'' =
      py_getitem (with_item schema ''config'' (JObj config2)) ''pages''"
    using kvs by (simp add: AList.update_conv')
  ultimately show ?thesis
    by (rule outcome_cong)
qed

theorem config_noninterference_witness:
  "py_getitem example_schema ''config'' = Inr (JObj [(''uuid_seed'', JStr ''test'')])
   \<and> map_of [(''uuid_seed'', JStr ''test'')] ''uuid_seed'' =
        map_of [(''theme'', JStr ''dark''), (''uuid_seed'', JStr ''test'')] ''uuid_seed''
   \<and> outcome (data_processing text_libs example_schema) =
        Inr (JList [example_page], example_nav, example_registry)
   \<and> outcome (data_processing text_libs (with_item example_schema ''config''
          (JObj [(''theme'', JStr ''dark''), (''uuid_seed'', JStr ''test'')]))) =
        Inr (JList [example_page], example_nav, example_registry)"
proof -
  have config: "py_getitem example_schema ''config'' = Inr (JObj [(''uuid_seed'', JStr ''test'')])"
    by (simp add: example_schema_def)
  have agree: "map_of [(''uuid_seed'', JStr ''test'')] ''uuid_seed'' =
        map_of [(''theme'', JStr ''dark''), (''uuid_seed'', JStr ''test'')] ''uuid_seed''"
    by simp
  have out: "outcome (data_processing text_libs example_schema) =
        Inr (JList [example_page], example_nav, example_registry)"
    by (simp add: example_run) (simp add: example_processed_def field_def)
  with config_noninterference [OF config agree, of text_libs] config agree show ?thesis
    by simp
qed

text \<open>
  C10.  Empty collections are processed without an exception: a schema with a usable seed
  and an empty list of pages is left as it is, with no navigation item and an empty
  registry; the loop's step for a page with an empty list of sections, and the step for a
  section with an empty list of lessons, succeed, leave the page or section as it is and
  leave the registry as it was.
\<close>

theorem empty_collections_ok:
  "(seed_string schema = Inr (JStr seed) \<and> py_getitem schema ''pages'' = Inr (JList [])
      \<longrightarrow> data_processing L schema = Inr (schema, [], []))
   \<and> (py_getitem page ''sections'' = Inr (JList [])
      \<longrightarrow> page_body L ns page (pages, reg) = Inr (pages @ [page], reg))
   \<and> (py_getitem section ''lessons'' = Inr (JList [])
      \<longrightarrow> section_body L ns page' section (sections, reg') = Inr (sections @ [section], reg'))"
proof (intro conjI impI)
  assume "seed_string schema = Inr (JStr seed) \<and> py_getitem schema ''pages'' = Inr (JList [])"
  moreover from this obtain kvs where "schema = JObj kvs" "map_of kvs ''pages'' = Some (JList [])"
    by (auto dest: getitem_obj)
  ultimately show "data_processing L schema = Inr (schema, [], [])"
    by (simp add: data_processing_def nav_items_def AList.update_triv)
next
  assume a: "py_getitem page ''sections'' = Inr (JList [])"
  then obtain kvs where "page = JObj kvs" "map_of kvs ''sections'' = Some (JList [])"
    by (auto dest: getitem_obj)
  with a show "page_body L ns page (pages, reg) = Inr (pages @ [page], reg)"
    by (simp add: page_body_def AList.update_triv)
next
  assume a: "py_getitem section ''lessons'' = Inr (JList [])"
  then obtain kvs where "section = JObj kvs" "map_of kvs ''lessons'' = Some (JList [])"
    by (auto dest: getitem_obj)
  with a show "section_body L ns page' section (sections, reg') = Inr (sections @ [section], reg')"
    by (simp add: section_body_def AList.update_triv)
qed

theorem empty_collections_ok_witness:
  "seed_string empty_schema = Inr (JStr ''default_seed'')
   \<and> py_getitem empty_schema ''pages'' = Inr (JList [])
   \<and> data_processing text_libs empty_schema = Inr (empty_schema, [], [])
   \<and> py_getitem empty_page ''sections'' = Inr (JList [])
   \<and> page_body text_libs ''dns/test'' empty_page ([], example_registry) =
        Inr ([empty_page], example_registry)
   \<and> py_getitem empty_section ''lessons'' = Inr (JList [])
   \<and> section_body text_libs ''dns/test'' example_page empty_section ([], example_registry) =
        Inr ([empty_section], example_registry)
   \<and> (\<exists>nav. data_processing text_libs sparse_schema = Inr (sparse_schema, nav, []))"
proof -
  have seed: "seed_string empty_schema = Inr (JStr ''default_seed'')"
    by (simp add: seed_string_def empty_schema_def)
  have pages: "py_getitem empty_schema ''pages'' = Inr (JList [])"
    by (simp add: empty_schema_def)
  have sections: "py_getitem empty_page ''sections'' = Inr (JList [])"
    by (simp add: empty_page_def)
  have lessons: "py_getitem empty_section ''lessons'' = Inr (JList [])"
    by (simp add: empty_section_def)
  have sparse: "\<exists>nav. data_processing text_libs sparse_schema = Inr (sparse_schema, nav, [])"
    by (simp add: build_defs sparse_schema_def empty_page_def empty_section_def text_libs_def)
  from empty_collections_ok [of empty_schema "''default_seed''" text_libs empty_page "''dns/test''"
      "[]" example_registry empty_section example_page "[]" example_registry]
    seed pages sections lessons sparse
  show ?thesis
    by simp
qed

end
